theory Spec2Isabelle
  imports Complex_Main "HOL-Library.List_Lexorder" "HOL-Library.Multiset" "HOL-Library.Sublist"
begin

section \<open>JavaScript strings\<close>

text \<open>
  A JavaScript string is a sequence of UTF-16 code units; \<open>s.length\<close>, \<open>lastIndexOf\<close>,
  \<open>substring\<close> and the default \<open>Array.prototype.sort\<close> all work on code units. A string
  is modelled as the list of its code units, \<open>ascii\<close> embeds an ASCII literal.
\<close>

type_synonym ustring = "nat list"

definition ascii :: "string \<Rightarrow> ustring" where
  "ascii s = map of_char s"

text \<open>
  The characters \<open>\s\<close> matches in a regular expression, which are also the ones
  \<open>trim\<close> and \<open>trimStart\<close> remove: ECMAScript's WhiteSpace and LineTerminator.
\<close>

definition isWhiteSpace :: "nat \<Rightarrow> bool" where
  "isWhiteSpace c \<longleftrightarrow>
     c = 9 \<or> c = 10 \<or> c = 11 \<or> c = 12 \<or> c = 13 \<or> c = 32 \<or> c = 160 \<or> c = 5760 \<or>
     (8192 \<le> c \<and> c \<le> 8202) \<or> c = 8232 \<or> c = 8233 \<or> c = 8239 \<or> c = 8287 \<or>
     c = 12288 \<or> c = 65279"

definition trimStart :: "ustring \<Rightarrow> ustring" where
  "trimStart s = dropWhile isWhiteSpace s"

definition trim :: "ustring \<Rightarrow> ustring" where
  "trim s = rev (dropWhile isWhiteSpace (rev (dropWhile isWhiteSpace s)))"

text \<open>
  \<open>s.lastIndexOf(c, fromIndex)\<close> for a one-character search string \<open>c\<close>: the largest
  index \<open>k \<le> fromIndex\<close> with \<open>s[k] = c\<close>, or \<open>-1\<close>.
\<close>

definition lastIndexOf :: "ustring \<Rightarrow> nat \<Rightarrow> nat \<Rightarrow> int" where
  "lastIndexOf s c fromIndex =
     (let q = dropWhile (\<lambda>x. x \<noteq> c) (rev (take (Suc fromIndex) s))
      in if q = [] then - 1 else int (length q) - 1)"

text \<open>\<open>s.substring(a, b)\<close> and \<open>s.substring(a)\<close> for \<open>0 \<le> a \<le> b\<close>.\<close>

definition substring :: "ustring \<Rightarrow> nat \<Rightarrow> nat \<Rightarrow> ustring" where
  "substring s a b = take (b - a) (drop a s)"

definition substring_from :: "ustring \<Rightarrow> nat \<Rightarrow> ustring" where
  "substring_from s a = drop a s"

text \<open>The decimal rendering of a non-negative integer, as in a template literal.\<close>

fun show_nat :: "nat \<Rightarrow> ustring" where
  "show_nat n = (if n < 10 then [48 + n] else show_nat (n div 10) @ [48 + n mod 10])"

text \<open>
  A case-insensitive regular expression (flag \<open>i\<close>, no flag \<open>u\<close>) matches an ASCII letter of
  the pattern against the letter in either case and against nothing else.
\<close>

definition eq_ignore_case :: "nat \<Rightarrow> nat \<Rightarrow> bool" where
  "eq_ignore_case p c \<longleftrightarrow>
     c = p \<or> (97 \<le> p \<and> p \<le> 122 \<and> c + 32 = p) \<or> (65 \<le> p \<and> p \<le> 90 \<and> c = p + 32)"

definition matches_word_ci :: "string \<Rightarrow> ustring \<Rightarrow> bool" where
  "matches_word_ci word s \<longleftrightarrow> list_all2 eq_ignore_case (ascii word) s"

section \<open>utils/signature.ts\<close>

text \<open>
  \<open>crypto.createHash('sha1').update(s).digest('hex')\<close> belongs to the Node runtime; both
  functions take it as the parameter \<open>sha1_hex\<close>. \<open>[a, b, c].sort()\<close> orders the three
  strings by code units (the lexicographic order of lists), \<open>join('')\<close> concatenates.
\<close>

definition validateSignature ::
  "(ustring \<Rightarrow> ustring) \<Rightarrow> ustring \<Rightarrow> ustring \<Rightarrow> ustring \<Rightarrow> ustring \<Rightarrow> bool" where
  "validateSignature sha1_hex token signature timestamp nonce =
     (let arr = sort [token, timestamp, nonce];
          hash = sha1_hex (concat arr)
      in hash = signature)"

definition generateSignature ::
  "(ustring \<Rightarrow> ustring) \<Rightarrow> ustring \<Rightarrow> ustring \<Rightarrow> ustring \<Rightarrow> ustring" where
  "generateSignature sha1_hex token timestamp nonce =
     (let arr = sort [token, timestamp, nonce]
      in sha1_hex (concat arr))"

section \<open>Values that may be absent\<close>

text \<open>
  An optional string property is \<open>None\<close> when it is \<open>undefined\<close>. \<open>truthy\<close> is the test
  JavaScript applies to it in a condition, \<open>or_else x d\<close> is \<open>x || d\<close>.
\<close>

definition truthy :: "ustring option \<Rightarrow> bool" where
  "truthy x = (case x of None \<Rightarrow> False | Some s \<Rightarrow> s \<noteq> [])"

definition or_else :: "ustring option \<Rightarrow> ustring \<Rightarrow> ustring" where
  "or_else x d = (case x of None \<Rightarrow> d | Some s \<Rightarrow> if s = [] then d else s)"

section \<open>The runtime and the configuration\<close>

text \<open>
  What the code takes from the Node runtime, its libraries and its configuration is a
  parameter of the model, collected in the record \<open>env\<close>:
  \<^item> \<open>crypto_sha1_hex s\<close> is \<open>crypto.createHash('sha1').update(s).digest('hex')\<close>;
  \<^item> \<open>JSON_stringify_UserBinding\<close>, \<open>JSON_parse_UserBinding\<close> and the two functions for
    \<open>TokenCache\<close> are \<open>JSON.stringify\<close> and \<open>JSON.parse\<close> at the type the code declares for
    the value, \<open>None\<close> when \<open>JSON.parse\<close> throws;
  \<^item> \<open>URL_parses s\<close> holds when \<open>new URL(s)\<close> does not throw;
  \<^item> \<open>Number_toString\<close> renders a number inside a template literal, and
    \<open>seconds_toFixed_1 ms\<close> is \<open>(ms / 1000).toFixed(1)\<close>;
  \<^item> \<open>XMLParser_parse\<close> is \<open>xmlParser.parse(xml).xml\<close> of \<open>parseWeChatXml\<close>;
  \<^item> \<open>config_wechat_token\<close> and \<open>config_bridge_baseUrl\<close> are the two settings read.
\<close>

record UserBinding =
  endpoint :: ustring
  token :: ustring
  createdAt :: nat

record TokenCache =
  accessToken :: ustring
  expiresAt :: int

record WeChatMessage =
  ToUserName :: ustring
  FromUserName :: ustring
  CreateTime :: int
  MsgType :: ustring
  Content :: "ustring option"
  MsgId :: "ustring option"
  Event :: "ustring option"
  EventKey :: "ustring option"
  PicUrl :: "ustring option"
  MediaId :: "ustring option"
  Format :: "ustring option"
  Recognition :: "ustring option"
  ThumbMediaId :: "ustring option"
  Location_X :: "rat option"
  Location_Y :: "rat option"
  Scale :: "rat option"
  Label :: "ustring option"
  Title :: "ustring option"
  Description :: "ustring option"
  Url :: "ustring option"

datatype xml_parsed = XmlThrows | XmlNoRoot | XmlMessage WeChatMessage

record env =
  crypto_sha1_hex :: "ustring \<Rightarrow> ustring"
  JSON_stringify_UserBinding :: "UserBinding \<Rightarrow> ustring"
  JSON_parse_UserBinding :: "ustring \<Rightarrow> UserBinding option"
  JSON_stringify_TokenCache :: "TokenCache \<Rightarrow> ustring"
  JSON_parse_TokenCache :: "ustring \<Rightarrow> TokenCache option"
  URL_parses :: "ustring \<Rightarrow> bool"
  Number_toString :: "rat \<Rightarrow> ustring"
  seconds_toFixed_1 :: "int \<Rightarrow> ustring"
  XMLParser_parse :: "ustring \<Rightarrow> xml_parsed"
  config_wechat_token :: ustring
  config_bridge_baseUrl :: ustring

section \<open>The world outside the process\<close>

text \<open>
  The functions of the bridge read and write a Redis store, read the clock, and call two
  endpoints of the platform. The record \<open>world\<close> is that state, passed through every
  function:
  \<^item> \<open>redis\<close> maps a key to its value and, for a key set with \<open>EX\<close>, the time in
    milliseconds at which it expires;
  \<^item> \<open>clock\<close> is \<open>Date.now()\<close>; only a \<open>setTimeout\<close> the code awaits advances it;
  \<^item> \<open>token_api\<close> and \<open>send_api\<close> are the replies the platform will give to the next
    requests for a token and to the next customer service messages, in order; a request
    that finds the list empty fails as a network error does;
  \<^item> \<open>token_requests\<close> counts the requests for a token, \<open>posts\<close> lists the customer
    service messages posted, each with the access token of its URL;
  \<^item> \<open>forwards\<close> lists the requests \<open>forwardToClawdbot\<close> started;
  \<^item> \<open>log\<close> lists the warnings and errors written to the console.
\<close>

datatype error = SyntaxError | TypeError | WeChatApiError int | AxiosError | ReplyError

datatype token_reply =
    Token_failed
  | Token_data (data_errcode: "int option") (data_access_token: ustring) (data_expires_in: nat)

datatype send_reply = Send_failed | Send_data "int option"

datatype CustomerServiceMessage =
    TextMessage (touser: ustring) (text_content: ustring)
  | ImageMessage (touser: ustring) (image_media_id: ustring)

record ClawdbotWebhookPayload =
  task :: ustring
  callback_url :: ustring
  metadata_openid :: ustring
  metadata_msg_type :: ustring
  metadata_msg_id :: "ustring option"
  metadata_timestamp :: int

record forward_request =
  post_url :: ustring
  header_Authorization :: ustring
  payload :: ClawdbotWebhookPayload

datatype log_entry =
    Warn_token_expired
  | Error_send_failed "int option"
  | Error_send_threw error
  | Log_token_refreshed nat
  | Log_callback_received ustring
  | Warn_callback_unbound ustring
  | Log_callback_sent ustring
  | Error_callback_not_sent ustring

record world =
  redis :: "ustring \<rightharpoonup> (ustring \<times> nat option)"
  clock :: nat
  token_api :: "token_reply list"
  send_api :: "send_reply list"
  token_requests :: nat
  posts :: "(ustring \<times> CustomerServiceMessage) list"
  forwards :: "forward_request list"
  log :: "log_entry list"

definition console :: "log_entry \<Rightarrow> world \<Rightarrow> world" where
  "console l w = w\<lparr>log := log w @ [l]\<rparr>"

definition sleep :: "nat \<Rightarrow> world \<Rightarrow> world" where
  \<comment> \<open>\<open>await new Promise(resolve => setTimeout(resolve, ms))\<close>\<close>
  "sleep ms w = w\<lparr>clock := clock w + ms\<rparr>"

subsection \<open>Redis commands\<close>

definition redis_get :: "world \<Rightarrow> ustring \<Rightarrow> ustring option" where
  "redis_get w k =
     (case redis w k of
        None \<Rightarrow> None
      | Some (v, None) \<Rightarrow> Some v
      | Some (v, Some e) \<Rightarrow> if clock w < e then Some v else None)"

definition redis_set :: "world \<Rightarrow> ustring \<Rightarrow> ustring \<Rightarrow> world" where
  "redis_set w k v = w\<lparr>redis := (redis w)(k \<mapsto> (v, None))\<rparr>"

definition redis_set_EX :: "world \<Rightarrow> ustring \<Rightarrow> ustring \<Rightarrow> nat \<Rightarrow> error + world" where
  \<comment> \<open>\<open>SET k v EX seconds\<close>; Redis refuses an expire time of 0\<close>
  "redis_set_EX w k v seconds =
     (if seconds = 0 then Inl ReplyError
      else Inr (w\<lparr>redis := (redis w)(k \<mapsto> (v, Some (clock w + 1000 * seconds)))\<rparr>))"

definition redis_set_EX_NX :: "world \<Rightarrow> ustring \<Rightarrow> ustring \<Rightarrow> nat \<Rightarrow> bool \<times> world" where
  \<comment> \<open>\<open>SET k v EX seconds NX\<close> with \<open>seconds > 0\<close>: whether the key was set, and the store\<close>
  "redis_set_EX_NX w k v seconds =
     (if redis_get w k = None
      then (True, w\<lparr>redis := (redis w)(k \<mapsto> (v, Some (clock w + 1000 * seconds)))\<rparr>)
      else (False, w))"

definition redis_del :: "world \<Rightarrow> ustring \<Rightarrow> nat \<times> world" where
  \<comment> \<open>\<open>DEL k\<close>: the number of keys removed, and the store\<close>
  "redis_del w k =
     ((if redis_get w k = None then 0 else 1), w\<lparr>redis := (redis w)(k := None)\<rparr>)"

section \<open>services/redis.ts: the bindings\<close>

definition BINDING_PREFIX :: ustring where
  "BINDING_PREFIX = ascii ''wechat:binding:''"

definition setBinding :: "env \<Rightarrow> world \<Rightarrow> ustring \<Rightarrow> ustring \<Rightarrow> ustring \<Rightarrow> world" where
  "setBinding env w openId endpoint' token' =
     (let binding = \<lparr>endpoint = endpoint', token = token', createdAt = clock w\<rparr>
      in redis_set w (BINDING_PREFIX @ openId) (JSON_stringify_UserBinding env binding))"

definition getBinding :: "env \<Rightarrow> world \<Rightarrow> ustring \<Rightarrow> UserBinding option" where
  "getBinding env w openId =
     (case redis_get w (BINDING_PREFIX @ openId) of
        None \<Rightarrow> None
      | Some data \<Rightarrow>
          if data = [] then None
          else (case JSON_parse_UserBinding env data of
                  Some binding \<Rightarrow> Some binding
                | None \<Rightarrow> None))"

definition deleteBinding :: "world \<Rightarrow> ustring \<Rightarrow> bool \<times> world" where
  "deleteBinding w openId =
     (let (result, w') = redis_del w (BINDING_PREFIX @ openId)
      in (result > 0, w'))"

section \<open>services/wechat-token.ts\<close>

definition TOKEN_KEY :: ustring where
  "TOKEN_KEY = ascii ''wechat:access_token''"

definition TOKEN_LOCK_KEY :: ustring where
  "TOKEN_LOCK_KEY = ascii ''wechat:access_token:lock''"

definition TOKEN_REFRESH_THRESHOLD :: int where
  "TOKEN_REFRESH_THRESHOLD = 600"

text \<open>
  The body of \<open>refreshAccessToken\<close> once the lock is held: the \<open>try\<close> block, which asks the
  platform for a token and caches it, and the \<open>finally\<close> block, which deletes the lock.
\<close>

definition request_token :: "env \<Rightarrow> world \<Rightarrow> (error + ustring) \<times> world" where
  "request_token env w =
     (let w1 = w\<lparr>token_api := tl (token_api w), token_requests := Suc (token_requests w)\<rparr>
      in case token_api w of
           [] \<Rightarrow> (Inl AxiosError, w1)
         | Token_failed # _ \<Rightarrow> (Inl AxiosError, w1)
         | Token_data errcode access_token expires_in # _ \<Rightarrow>
             if errcode \<noteq> None \<and> errcode \<noteq> Some 0 then (Inl (WeChatApiError (the errcode)), w1)
             else
               let now = clock w1 div 1000;
                   tokenData = \<lparr>accessToken = access_token, expiresAt = int now + int expires_in\<rparr>
               in case redis_set_EX w1 TOKEN_KEY (JSON_stringify_TokenCache env tokenData) expires_in of
                    Inl e \<Rightarrow> (Inl e, w1)
                  | Inr w2 \<Rightarrow> (Inr access_token, console (Log_token_refreshed expires_in) w2))"

definition refresh_holding_lock :: "env \<Rightarrow> world \<Rightarrow> (error + ustring) \<times> world" where
  "refresh_holding_lock env w =
     (let (r, w1) = request_token env w
      in (r, snd (redis_del w1 TOKEN_LOCK_KEY)))"

text \<open>
  \<open>getAccessToken\<close> and \<open>refreshAccessToken\<close> call each other: a refresher that finds the
  lock taken waits a second and starts \<open>getAccessToken\<close> again, and nothing in the code
  bounds the number of rounds. The model counts them: \<open>fuel\<close> is the number of waits still
  allowed, and the result is \<open>None\<close> when a further wait would be needed. A result
  \<open>Some (Inl e, w)\<close> is the exception \<open>e\<close> thrown.
\<close>

fun getAccessToken :: "env \<Rightarrow> nat \<Rightarrow> world \<Rightarrow> ((error + ustring) \<times> world) option"
  and refreshAccessToken :: "env \<Rightarrow> nat \<Rightarrow> world \<Rightarrow> ((error + ustring) \<times> world) option"
where
  "getAccessToken env fuel w =
     (case redis_get w TOKEN_KEY of
        None \<Rightarrow> refreshAccessToken env fuel w
      | Some cached \<Rightarrow>
          if cached = [] then refreshAccessToken env fuel w
          else (case JSON_parse_TokenCache env cached of
                  None \<Rightarrow> Some (Inl SyntaxError, w)
                | Some tokenData \<Rightarrow>
                    let now = int (clock w div 1000)
                    in if expiresAt tokenData - TOKEN_REFRESH_THRESHOLD > now
                       then Some (Inr (accessToken tokenData), w)
                       else refreshAccessToken env fuel w))"
| "refreshAccessToken env 0 w =
     (case redis_set_EX_NX w TOKEN_LOCK_KEY (ascii ''1'') 30 of
        (False, w1) \<Rightarrow> None
      | (True, w1) \<Rightarrow> Some (refresh_holding_lock env w1))"
| "refreshAccessToken env (Suc fuel) w =
     (case redis_set_EX_NX w TOKEN_LOCK_KEY (ascii ''1'') 30 of
        (False, w1) \<Rightarrow> getAccessToken env fuel (sleep 1000 w1)
      | (True, w1) \<Rightarrow> Some (refresh_holding_lock env w1))"

declare getAccessToken.simps [simp del] refreshAccessToken.simps [simp del]

definition forceRefreshToken :: "env \<Rightarrow> nat \<Rightarrow> world \<Rightarrow> ((error + ustring) \<times> world) option" where
  "forceRefreshToken env fuel w = refreshAccessToken env fuel (snd (redis_del w TOKEN_KEY))"

section \<open>services/wechat-message.ts: splitting a long text\<close>

definition MAX_LENGTH :: nat where
  "MAX_LENGTH = 600"

text \<open>
  The split position of one round of the loop in \<open>sendTextMessage\<close>, for a \<open>remaining\<close>
  longer than \<open>MAX_LENGTH\<close>: the last line feed at an index up to \<open>MAX_LENGTH\<close>; when there
  is none or it lies below \<open>MAX_LENGTH / 2\<close>, the last space instead; when that fails the
  same way, \<open>MAX_LENGTH\<close>.
\<close>

definition splitIndex :: "ustring \<Rightarrow> int" where
  "splitIndex remaining =
     (let splitIndex = lastIndexOf remaining 10 MAX_LENGTH;
          splitIndex =
            (if splitIndex = - 1 \<or> splitIndex < int MAX_LENGTH div 2
             then lastIndexOf remaining 32 MAX_LENGTH else splitIndex);
          splitIndex =
            (if splitIndex = - 1 \<or> splitIndex < int MAX_LENGTH div 2
             then int MAX_LENGTH else splitIndex)
      in splitIndex)"

lemma lastIndexOf_bounds: "- 1 \<le> lastIndexOf s c k \<and> lastIndexOf s c k \<le> int k"
proof -
  have "length (dropWhile (\<lambda>x. x \<noteq> c) (rev (take (Suc k) s))) \<le> Suc k"
    by (rule order_trans [OF length_dropWhile_le]) simp
  then show ?thesis
    by (auto simp: lastIndexOf_def Let_def)
qed

lemma splitIndex_bounds:
  "int MAX_LENGTH div 2 \<le> splitIndex s \<and> splitIndex s \<le> int MAX_LENGTH"
  using lastIndexOf_bounds [of s 10 MAX_LENGTH] lastIndexOf_bounds [of s 32 MAX_LENGTH]
  by (auto simp: splitIndex_def Let_def MAX_LENGTH_def)

text \<open>
  The \<open>while\<close> loop of \<open>sendTextMessage\<close>: the list of chunks pushed, starting from
  \<open>remaining\<close>.
\<close>

function splitChunks :: "ustring \<Rightarrow> ustring list" where
  "splitChunks remaining =
     (if length remaining > 0 then
        if length remaining \<le> MAX_LENGTH then [remaining]
        else substring remaining 0 (nat (splitIndex remaining))
               # splitChunks (trimStart (substring_from remaining (nat (splitIndex remaining))))
      else [])"
  by pat_completeness auto
termination
proof (relation "measure length")
  show "wf (measure length)" by simp
next
  fix remaining :: ustring
  assume "0 < length remaining" and long: "\<not> length remaining \<le> MAX_LENGTH"
  have "length (dropWhile isWhiteSpace (drop (nat (splitIndex remaining)) remaining))
          \<le> length (drop (nat (splitIndex remaining)) remaining)"
    by (rule length_dropWhile_le)
  moreover have "0 < nat (splitIndex remaining)"
    using splitIndex_bounds [of remaining] by (simp add: MAX_LENGTH_def)
  ultimately show "(trimStart (substring_from remaining (nat (splitIndex remaining))), remaining)
                     \<in> measure length"
    using long by (simp add: trimStart_def substring_from_def MAX_LENGTH_def)
qed

declare splitChunks.simps [simp del]

text \<open>The text of the \<open>i\<close>-th message of the \<open>for\<close> loop (\<open>i\<close> counts from 0).\<close>

definition chunkText :: "ustring list \<Rightarrow> nat \<Rightarrow> ustring" where
  "chunkText chunks i =
     (if i = 0 then chunks ! i
      else ascii ''('' @ show_nat (i + 1) @ ascii ''/'' @ show_nat (length chunks) @ ascii '') ''
             @ chunks ! i)"

section \<open>services/wechat-message.ts: sending\<close>

text \<open>
  \<open>sendCustomerServiceMessage\<close> catches every exception and returns \<open>false\<close>; its result
  is \<open>None\<close> only when a call of the token manager ran out of \<open>fuel\<close>.
\<close>

function sendCustomerServiceMessage ::
  "env \<Rightarrow> CustomerServiceMessage \<Rightarrow> bool \<Rightarrow> nat \<Rightarrow> world \<Rightarrow> (bool \<times> world) option" where
  "sendCustomerServiceMessage env message retryOnTokenError fuel w =
     (case getAccessToken env fuel w of
        None \<Rightarrow> None
      | Some (Inl e, w1) \<Rightarrow> Some (False, console (Error_send_threw e) w1)
      | Some (Inr accessToken', w1) \<Rightarrow>
          (let w2 = w1\<lparr>send_api := tl (send_api w1),
                       posts := posts w1 @ [(accessToken', message)]\<rparr>
           in case send_api w1 of
                [] \<Rightarrow> Some (False, console (Error_send_threw AxiosError) w2)
              | Send_failed # _ \<Rightarrow> Some (False, console (Error_send_threw AxiosError) w2)
              | Send_data errcode # _ \<Rightarrow>
                  if errcode = Some 0 then Some (True, w2)
                  else if errcode = Some 40001 \<and> retryOnTokenError then
                    (case forceRefreshToken env fuel (console Warn_token_expired w2) of
                       None \<Rightarrow> None
                     | Some (Inl e, w3) \<Rightarrow> Some (False, console (Error_send_threw e) w3)
                     | Some (Inr _, w3) \<Rightarrow> sendCustomerServiceMessage env message False fuel w3)
                  else Some (False, console (Error_send_failed errcode) w2)))"
  by pat_completeness auto
termination
  by (relation "measure (\<lambda>(env, message, retryOnTokenError, fuel, w). if retryOnTokenError then 1 else 0)")
    auto

declare sendCustomerServiceMessage.simps [simp del]

text \<open>The \<open>for\<close> loop of \<open>sendTextMessage\<close>, from index \<open>i\<close> on.\<close>

function sendChunks ::
  "env \<Rightarrow> ustring \<Rightarrow> ustring list \<Rightarrow> nat \<Rightarrow> bool \<Rightarrow> nat \<Rightarrow> world \<Rightarrow> (bool \<times> world) option" where
  "sendChunks env openId chunks i success fuel w =
     (if i < length chunks then
        (case sendCustomerServiceMessage env (TextMessage openId (chunkText chunks i)) True fuel w of
           None \<Rightarrow> None
         | Some (result, w1) \<Rightarrow>
             sendChunks env openId chunks (Suc i) (if \<not> result then False else success) fuel
               (if i < length chunks - 1 then sleep 100 w1 else w1))
      else Some (success, w))"
  by pat_completeness auto
termination
  by (relation "measure (\<lambda>(env, openId, chunks, i, success, fuel, w). length chunks - i)") auto

declare sendChunks.simps [simp del]

definition sendTextMessage ::
  "env \<Rightarrow> ustring \<Rightarrow> ustring \<Rightarrow> nat \<Rightarrow> world \<Rightarrow> (bool \<times> world) option" where
  "sendTextMessage env openId content fuel w =
     (if length content \<le> MAX_LENGTH
      then sendCustomerServiceMessage env (TextMessage openId content) True fuel w
      else sendChunks env openId (splitChunks content) 0 True fuel w)"

section \<open>services/clawdbot-forwarder.ts\<close>

definition VOICE_UNRECOGNIZED :: ustring where
  \<comment> \<open>the placeholder for a voice message without a transcript\<close>
  "VOICE_UNRECOGNIZED =
     [91, 35821, 38899, 28040, 24687, 65292, 26080, 27861, 35782, 21035, 93]"

definition IMAGE_TAG :: ustring where
  \<comment> \<open>the tag of an image message, with its trailing space\<close>
  "IMAGE_TAG =
     [91, 22270, 29255, 28040, 24687, 93, 32]"

definition LOCATION_TAG_LONGITUDE :: ustring where
  \<comment> \<open>the tag of a location message up to the longitude\<close>
  "LOCATION_TAG_LONGITUDE =
     [91, 20301, 32622, 28040, 24687, 93, 32, 32463, 24230, 58, 32]"

definition LOCATION_TAG_LATITUDE :: ustring where
  \<comment> \<open>the text between longitude and latitude\<close>
  "LOCATION_TAG_LATITUDE =
     [44, 32, 32428, 24230, 58, 32]"

definition LINK_TAG :: ustring where
  \<comment> \<open>the tag of a link message, with its trailing space\<close>
  "LINK_TAG =
     [91, 38142, 25509, 28040, 24687, 93, 32]"

definition MESSAGE_SUFFIX :: ustring where
  \<comment> \<open>the end of the placeholder for any other kind\<close>
  "MESSAGE_SUFFIX =
     [28040, 24687, 93]"

text \<open>A number property inside a template literal; an absent one reads \<open>undefined\<close>.\<close>

definition number_in_template :: "env \<Rightarrow> rat option \<Rightarrow> ustring" where
  "number_in_template env x =
     (case x of None \<Rightarrow> ascii ''undefined'' | Some n \<Rightarrow> Number_toString env n)"

text \<open>The \<open>switch\<close> of \<open>doForward\<close>: the task text for a message.\<close>

definition task_of :: "env \<Rightarrow> WeChatMessage \<Rightarrow> ustring" where
  "task_of env message =
     (if MsgType message = ascii ''text'' then or_else (Content message) []
      else if MsgType message = ascii ''voice'' then
        or_else (Recognition message) VOICE_UNRECOGNIZED
      else if MsgType message = ascii ''image'' then
        IMAGE_TAG @ or_else (PicUrl message) []
      else if MsgType message = ascii ''location'' then
        LOCATION_TAG_LONGITUDE @ number_in_template env (Location_Y message)
          @ LOCATION_TAG_LATITUDE @ number_in_template env (Location_X message)
          @ ascii '', '' @ or_else (Label message) []
      else if MsgType message = ascii ''link'' then
        LINK_TAG @ or_else (Title message) [] @ [10] @ or_else (Description message) []
          @ [10] @ or_else (Url message) []
      else ascii ''['' @ MsgType message @ MESSAGE_SUFFIX)"

text \<open>The request \<open>doForward\<close> posts to the bound endpoint.\<close>

definition doForward :: "env \<Rightarrow> WeChatMessage \<Rightarrow> UserBinding \<Rightarrow> forward_request" where
  "doForward env message binding =
     (let callbackUrl = config_bridge_baseUrl env @ ascii ''/callback/'' @ FromUserName message
      in \<lparr>post_url = endpoint binding,
          header_Authorization = ascii ''Bearer '' @ token binding,
          payload = \<lparr>task = task_of env message,
                      callback_url = callbackUrl,
                      metadata_openid = FromUserName message,
                      metadata_msg_type = MsgType message,
                      metadata_msg_id = MsgId message,
                      metadata_timestamp = CreateTime message\<rparr>\<rparr>)"

text \<open>
  \<open>forwardToClawdbot\<close> starts the request and does not wait for it; what the endpoint
  answers is only logged.
\<close>

definition forwardToClawdbot :: "env \<Rightarrow> WeChatMessage \<Rightarrow> UserBinding \<Rightarrow> world \<Rightarrow> world" where
  "forwardToClawdbot env message binding w =
     w\<lparr>forwards := forwards w @ [doForward env message binding]\<rparr>"

section \<open>routes/wechat.ts\<close>

datatype WeChatReply =
  TextReply (reply_ToUserName: ustring) (reply_FromUserName: ustring) (reply_CreateTime: nat)
    (reply_Content: ustring)

datatype body =
    Text ustring
  | Xml WeChatReply
  | Json_ok
  | Json_not_ok ustring
  | Json_internal_error

datatype response = Response (status: nat) (body: body)

definition buildTextReply :: "world \<Rightarrow> ustring \<Rightarrow> ustring \<Rightarrow> ustring \<Rightarrow> WeChatReply" where
  \<comment> \<open>\<open>MsgType\<close> is \<open>'text'\<close>, \<open>CreateTime\<close> the clock in seconds\<close>
  "buildTextReply w toUser fromUser content = TextReply toUser fromUser (clock w div 1000) content"

text \<open>
  \<open>BIND_REGEX\<close> is \<open>/^bind\s+(\S+)\s+(\S+)$/i\<close>. \<open>\s\<close> and \<open>\S\<close> are complementary, so
  a match is unique: each \<open>+\<close> takes a whole run of characters. The result is the pair of
  groups, \<open>None\<close> when \<open>match\<close> returns \<open>null\<close>.
\<close>

definition match_BIND_REGEX :: "ustring \<Rightarrow> (ustring \<times> ustring) option" where
  "match_BIND_REGEX s =
     (let space1 = takeWhile isWhiteSpace (drop 4 s);
          rest1 = dropWhile isWhiteSpace (drop 4 s);
          group1 = takeWhile (\<lambda>c. \<not> isWhiteSpace c) rest1;
          rest2 = dropWhile (\<lambda>c. \<not> isWhiteSpace c) rest1;
          space2 = takeWhile isWhiteSpace rest2;
          rest3 = dropWhile isWhiteSpace rest2;
          group2 = takeWhile (\<lambda>c. \<not> isWhiteSpace c) rest3;
          rest4 = dropWhile (\<lambda>c. \<not> isWhiteSpace c) rest3
      in if matches_word_ci ''bind'' (take 4 s) \<and> space1 \<noteq> [] \<and> group1 \<noteq> [] \<and> space2 \<noteq> []
            \<and> group2 \<noteq> [] \<and> rest4 = []
         then Some (group1, group2) else None)"

text \<open>\<open>UNBIND_REGEX\<close> is \<open>/^unbind$/i\<close>.\<close>

definition test_UNBIND_REGEX :: "ustring \<Rightarrow> bool" where
  "test_UNBIND_REGEX s = matches_word_ci ''unbind'' s"

definition WELCOME_MSG :: ustring where
  \<comment> \<open>the welcome text sent to a new follower\<close>
  "WELCOME_MSG =
     [55357, 56395, 32, 27426, 36814, 20851, 27880, 65281, 10, 10, 36825, 26159, 19968,
      20010, 32, 67, 108, 97, 119, 100, 98, 111, 116, 32, 26725, 25509, 26381, 21153,
      12290, 35831, 21457, 36865, 20197, 19979, 25351, 20196, 32465, 23450, 20320, 30340,
      32, 67, 108, 97, 119, 100, 98, 111, 116, 32, 23454, 20363, 65306, 10, 10, 98, 105,
      110, 100, 32, 60, 20320, 30340, 67, 108, 97, 119, 100, 98, 111, 116, 22320, 22336,
      62, 32, 60, 84, 111, 107, 101, 110, 62, 10, 10, 20363, 22914, 65306, 10, 98, 105,
      110, 100, 32, 104, 116, 116, 112, 115, 58, 47, 47, 109, 121, 45, 99, 108, 97, 119,
      100, 98, 111, 116, 46, 101, 120, 97, 109, 112, 108, 101, 46, 99, 111, 109, 47, 119,
      101, 98, 104, 111, 111, 107, 32, 97, 98, 99, 49, 50, 51, 10, 10, 32465, 23450, 21518,
      65292, 20320, 21487, 20197, 30452, 25509, 21457, 36865, 28040, 24687, 19982, 20320,
      30340, 32, 67, 108, 97, 119, 100, 98, 111, 116, 32, 23545, 35805, 12290, 10, 10,
      20854, 20182, 25351, 20196, 65306, 10, 8226, 32, 117, 110, 98, 105, 110, 100, 32, 45,
      32, 35299, 38500, 32465, 23450]"

definition INVALID_URL_MSG :: ustring where
  \<comment> \<open>the reply to a bind command whose endpoint is not a URL\<close>
  "INVALID_URL_MSG =
     [10060, 32, 26080, 25928, 30340, 32, 85, 82, 76, 32, 26684, 24335, 65292, 35831,
      26816, 26597, 21518, 37325, 35797, 12290]"

definition BIND_OK_PREFIX :: ustring where
  \<comment> \<open>the bind confirmation up to the endpoint\<close>
  "BIND_OK_PREFIX =
     [9989, 32, 32465, 23450, 25104, 21151, 65281, 10, 10, 20320, 30340, 32, 67, 108, 97,
      119, 100, 98, 111, 116, 32, 22320, 22336, 65306]"

definition BIND_OK_SUFFIX :: ustring where
  \<comment> \<open>the bind confirmation after the endpoint\<close>
  "BIND_OK_SUFFIX =
     [10, 10, 29616, 22312, 21487, 20197, 30452, 25509, 21457, 36865, 28040, 24687, 19982,
      20320, 30340, 32, 67, 108, 97, 119, 100, 98, 111, 116, 32, 23545, 35805, 20102,
      12290, 10, 10, 25552, 31034, 65306, 21457, 36865, 32, 117, 110, 98, 105, 110, 100,
      32, 21487, 20197, 35299, 38500, 32465, 23450, 12290]"

definition PLEASE_BIND_MSG :: ustring where
  \<comment> \<open>the instructions sent to a sender without a binding\<close>
  "PLEASE_BIND_MSG =
     [55357, 56395, 32, 35831, 20808, 32465, 23450, 20320, 30340, 32, 67, 108, 97, 119,
      100, 98, 111, 116, 32, 23454, 20363, 12290, 10, 10, 21457, 36865, 26684, 24335,
      65306, 10, 98, 105, 110, 100, 32, 60, 20320, 30340, 67, 108, 97, 119, 100, 98, 111,
      116, 22320, 22336, 62, 32, 60, 84, 111, 107, 101, 110, 62, 10, 10, 20363, 22914,
      65306, 10, 98, 105, 110, 100, 32, 104, 116, 116, 112, 115, 58, 47, 47, 109, 121, 45,
      99, 108, 97, 119, 100, 98, 111, 116, 46, 101, 120, 97, 109, 112, 108, 101, 46, 99,
      111, 109, 47, 119, 101, 98, 104, 111, 111, 107, 32, 97, 98, 99, 49, 50, 51]"

definition UNBIND_OK_MSG :: ustring where
  \<comment> \<open>the unbind confirmation\<close>
  "UNBIND_OK_MSG =
     [9989, 32, 24050, 35299, 38500, 32465, 23450, 12290, 10, 10, 20320, 21487, 20197,
      38543, 26102, 20351, 29992, 32, 98, 105, 110, 100, 32, 25351, 20196, 37325, 26032,
      32465, 23450, 26032, 30340, 32, 67, 108, 97, 119, 100, 98, 111, 116, 32, 23454,
      20363, 12290]"

definition PROCESSING_MSG :: ustring where
  \<comment> \<open>the immediate reply to a forwarded message\<close>
  "PROCESSING_MSG =
     [9203, 32, 27491, 22312, 22788, 29702, 20013, 65292, 35831, 31245, 20505, 46, 46, 46]"

record WeChatQueryParams =
  q_signature :: "ustring option"
  q_timestamp :: "ustring option"
  q_nonce :: "ustring option"
  q_echostr :: "ustring option"

text \<open>The handler of \<open>GET /wechat\<close>.\<close>

definition get_wechat :: "env \<Rightarrow> WeChatQueryParams \<Rightarrow> response" where
  "get_wechat env query =
     (if \<not> truthy (q_signature query) \<or> \<not> truthy (q_timestamp query) \<or> \<not> truthy (q_nonce query)
      then Response 400 (Text (ascii ''Missing parameters''))
      else
        let isValid = validateSignature (crypto_sha1_hex env) (config_wechat_token env)
                        (the (q_signature query)) (the (q_timestamp query)) (the (q_nonce query))
        in if isValid \<and> truthy (q_echostr query)
           then Response 200 (Text (the (q_echostr query)))
           else Response 403 (Text (ascii ''Invalid signature'')))"

text \<open>
  The handler of \<open>POST /wechat\<close> from the parsed message on: events, the binding check,
  the bind and unbind commands, forwarding.
\<close>

definition handle_message :: "env \<Rightarrow> WeChatMessage \<Rightarrow> world \<Rightarrow> response \<times> world" where
  "handle_message env message w =
     (let openId = FromUserName message;
          toUser = ToUserName message
      in if MsgType message = ascii ''event'' then
           (if Event message = Some (ascii ''subscribe'')
            then (Response 200 (Xml (buildTextReply w openId toUser WELCOME_MSG)), w)
            else (Response 200 (Text []), w))
         else
           (case getBinding env w openId of
              None \<Rightarrow>
                (case (if MsgType message = ascii ''text'' \<and> truthy (Content message)
                       then match_BIND_REGEX (the (Content message)) else None) of
                   Some (endpoint', token') \<Rightarrow>
                     if \<not> URL_parses env endpoint'
                     then (Response 200 (Xml (buildTextReply w openId toUser INVALID_URL_MSG)), w)
                     else
                       let w1 = setBinding env w openId endpoint' token'
                       in (Response 200 (Xml (buildTextReply w1 openId toUser
                                                (BIND_OK_PREFIX @ endpoint' @ BIND_OK_SUFFIX))), w1)
                 | None \<Rightarrow>
                     (Response 200 (Xml (buildTextReply w openId toUser PLEASE_BIND_MSG)), w))
            | Some binding \<Rightarrow>
                if MsgType message = ascii ''text'' \<and> truthy (Content message)
                   \<and> test_UNBIND_REGEX (trim (the (Content message)))
                then
                  let w1 = snd (deleteBinding w openId)
                  in (Response 200 (Xml (buildTextReply w1 openId toUser UNBIND_OK_MSG)), w1)
                else
                  let w1 = forwardToClawdbot env message binding w
                  in (Response 200 (Xml (buildTextReply w1 openId toUser PROCESSING_MSG)), w1)))"

text \<open>
  The handler of \<open>POST /wechat\<close>. A body without an \<open>xml\<close> element parses to
  \<open>undefined\<close>; reading \<open>message.FromUserName\<close> then throws, and the error handler of
  \<open>buildApp\<close> answers 500.
\<close>

definition post_wechat :: "env \<Rightarrow> WeChatQueryParams \<Rightarrow> ustring \<Rightarrow> world \<Rightarrow> response \<times> world" where
  "post_wechat env query request_body w =
     (if \<not> truthy (q_signature query) \<or> \<not> truthy (q_timestamp query) \<or> \<not> truthy (q_nonce query)
      then (Response 400 (Text (ascii ''Missing parameters'')), w)
      else if \<not> validateSignature (crypto_sha1_hex env) (config_wechat_token env)
                  (the (q_signature query)) (the (q_timestamp query)) (the (q_nonce query))
      then (Response 403 (Text (ascii ''Invalid signature'')), w)
      else (case XMLParser_parse env request_body of
              XmlThrows \<Rightarrow> (Response 400 (Text (ascii ''Invalid XML'')), w)
            | XmlNoRoot \<Rightarrow> (Response 500 Json_internal_error, w)
            | XmlMessage message \<Rightarrow> handle_message env message w))"

section \<open>routes/callback.ts\<close>

definition DONE_NO_CONTENT :: ustring where
  \<comment> \<open>the text delivered for a successful result without content\<close>
  "DONE_NO_CONTENT =
     [9989, 32, 20219, 21153, 24050, 23436, 25104, 65288, 26080, 36820, 22238, 20869,
      23481, 65289]"

definition FAILED_PREFIX :: ustring where
  \<comment> \<open>the prefix of the text delivered for a failed task\<close>
  "FAILED_PREFIX =
     [10060, 32, 22788, 29702, 22833, 36133, 65306]"

definition UNKNOWN_ERROR :: ustring where
  \<comment> \<open>the text standing for a missing error\<close>
  "UNKNOWN_ERROR =
     [26410, 30693, 38169, 35823]"

definition THINKING_TIME_PREFIX :: ustring where
  \<comment> \<open>the start of the elapsed-time suffix, two line feeds first\<close>
  "THINKING_TIME_PREFIX =
     [10, 10, 9201, 65039, 32, 24605, 32771, 29992, 26102, 58, 32]"

record callback_metadata =
  chunks :: "int option"
  thinking_time_ms :: "int option"

record ClawdbotCallbackPayload =
  success :: bool
  result :: "ustring option"
  error :: "ustring option"
  metadata :: "callback_metadata option"

text \<open>The text the handler of \<open>POST /callback/:openid\<close> composes from the body.\<close>

definition messageContent :: "env \<Rightarrow> ClawdbotCallbackPayload \<Rightarrow> ustring" where
  "messageContent env request_body =
     (let messageContent =
            (if success request_body then or_else (result request_body) DONE_NO_CONTENT
             else FAILED_PREFIX @ or_else (error request_body) UNKNOWN_ERROR)
      in case metadata request_body of
           None \<Rightarrow> messageContent
         | Some md \<Rightarrow>
             (case thinking_time_ms md of
                None \<Rightarrow> messageContent
              | Some ms \<Rightarrow>
                  if ms = 0 then messageContent
                  else messageContent @ THINKING_TIME_PREFIX @ seconds_toFixed_1 env ms
                         @ ascii ''s''))"

text \<open>The handler of \<open>POST /callback/:openid\<close>.\<close>

definition post_callback ::
  "env \<Rightarrow> ustring \<Rightarrow> ClawdbotCallbackPayload \<Rightarrow> nat \<Rightarrow> world \<Rightarrow> (response \<times> world) option" where
  "post_callback env openid request_body fuel w =
     (let w1 = console (Log_callback_received openid) w;
          binding = getBinding env w1 openid;
          w2 = (if binding = None then console (Warn_callback_unbound openid) w1 else w1)
      in case sendTextMessage env openid (messageContent env request_body) fuel w2 of
           None \<Rightarrow> None
         | Some (sent, w3) \<Rightarrow>
             if sent then Some (Response 200 Json_ok, console (Log_callback_sent openid) w3)
             else Some (Response 500 (Json_not_ok (ascii ''Failed to send WeChat message'')),
                        console (Error_callback_not_sent openid) w3))"

section \<open>A concrete runtime for the examples\<close>

text \<open>
  The examples below run the model in a small runtime of their own: a stand-in for the
  digest, \<open>JSON.stringify\<close> and \<open>JSON.parse\<close> for the two records when no string needs an
  escape, a URL test that accepts what starts with \<open>http://\<close> or \<open>https://\<close>, and the
  rendering of whole numbers and of tenths of a second. The theorems themselves hold in
  every runtime.
\<close>

definition demo_sha1_hex :: "ustring \<Rightarrow> ustring" where
  "demo_sha1_hex s = ascii ''sha1:'' @ s"

fun split_on :: "nat \<Rightarrow> ustring \<Rightarrow> ustring list" where
  "split_on c [] = [[]]"
| "split_on c (x # xs) =
     (if x = c then [] # split_on c xs
      else (case split_on c xs of [] \<Rightarrow> [[x]] | y # ys \<Rightarrow> (x # y) # ys))"

definition read_nat :: "ustring \<Rightarrow> nat option" where
  "read_nat ds =
     (if ds \<noteq> [] \<and> list_all (\<lambda>d. 48 \<le> d \<and> d \<le> 57) ds
      then Some (foldl (\<lambda>a d. 10 * a + (d - 48)) 0 ds) else None)"

definition demo_stringify_UserBinding :: "UserBinding \<Rightarrow> ustring" where
  "demo_stringify_UserBinding b =
     [123, 34] @ ascii ''endpoint'' @ [34, 58, 34] @ endpoint b @ [34, 44, 34] @ ascii ''token''
       @ [34, 58, 34] @ token b @ [34, 44, 34] @ ascii ''createdAt'' @ [34, 58]
       @ show_nat (createdAt b) @ [125]"

definition demo_parse_UserBinding :: "ustring \<Rightarrow> UserBinding option" where
  "demo_parse_UserBinding s =
     (case split_on 34 s of
        [open_brace, key1, colon1, e, comma1, key2, colon2, t, comma2, key3, rest] \<Rightarrow>
          if open_brace = [123] \<and> key1 = ascii ''endpoint'' \<and> colon1 = [58] \<and> comma1 = [44]
             \<and> key2 = ascii ''token'' \<and> colon2 = [58] \<and> comma2 = [44]
             \<and> key3 = ascii ''createdAt'' \<and> take 1 rest = [58] \<and> rest \<noteq> [] \<and> last rest = 125
          then (case read_nat (butlast (drop 1 rest)) of
                  Some n \<Rightarrow> Some \<lparr>endpoint = e, token = t, createdAt = n\<rparr>
                | None \<Rightarrow> None)
          else None
      | _ \<Rightarrow> None)"

definition demo_stringify_TokenCache :: "TokenCache \<Rightarrow> ustring" where
  "demo_stringify_TokenCache c =
     [123, 34] @ ascii ''accessToken'' @ [34, 58, 34] @ accessToken c @ [34, 44, 34]
       @ ascii ''expiresAt'' @ [34, 58] @ show_nat (nat (expiresAt c)) @ [125]"

definition demo_parse_TokenCache :: "ustring \<Rightarrow> TokenCache option" where
  "demo_parse_TokenCache s =
     (case split_on 34 s of
        [open_brace, key1, colon1, t, comma1, key2, rest] \<Rightarrow>
          if open_brace = [123] \<and> key1 = ascii ''accessToken'' \<and> colon1 = [58] \<and> comma1 = [44]
             \<and> key2 = ascii ''expiresAt'' \<and> take 1 rest = [58] \<and> rest \<noteq> [] \<and> last rest = 125
          then (case read_nat (butlast (drop 1 rest)) of
                  Some n \<Rightarrow> Some \<lparr>accessToken = t, expiresAt = int n\<rparr>
                | None \<Rightarrow> None)
          else None
      | _ \<Rightarrow> None)"

definition demo_URL_parses :: "ustring \<Rightarrow> bool" where
  "demo_URL_parses s \<longleftrightarrow>
     (take 7 s = ascii ''http://'' \<and> 7 < length s) \<or> (take 8 s = ascii ''https://'' \<and> 8 < length s)"

definition demo_Number_toString :: "rat \<Rightarrow> ustring" where
  "demo_Number_toString q = (if q < 0 then ascii ''-'' else []) @ show_nat (nat \<lfloor>\<bar>q\<bar>\<rfloor>)"

definition demo_seconds_toFixed_1 :: "int \<Rightarrow> ustring" where
  "demo_seconds_toFixed_1 ms =
     (let tenths = (nat \<bar>ms\<bar> + 50) div 100
      in (if ms < 0 \<and> 0 < tenths then ascii ''-'' else [])
           @ show_nat (tenths div 10) @ ascii ''.'' @ show_nat (tenths mod 10))"

definition demo_env :: env where
  "demo_env =
     \<lparr>crypto_sha1_hex = demo_sha1_hex,
      JSON_stringify_UserBinding = demo_stringify_UserBinding,
      JSON_parse_UserBinding = demo_parse_UserBinding,
      JSON_stringify_TokenCache = demo_stringify_TokenCache,
      JSON_parse_TokenCache = demo_parse_TokenCache,
      URL_parses = demo_URL_parses,
      Number_toString = demo_Number_toString,
      seconds_toFixed_1 = demo_seconds_toFixed_1,
      XMLParser_parse = (\<lambda>xml. XmlThrows),
      config_wechat_token = ascii ''secret'',
      config_bridge_baseUrl = ascii ''https://bridge.example''\<rparr>"

definition demo_world :: world where
  \<comment> \<open>an empty store at time 1000000 ms, and a platform that answers nothing\<close>
  "demo_world =
     \<lparr>redis = Map.empty, clock = 1000000, token_api = [], send_api = [], token_requests = 0,
      posts = [], forwards = [], log = []\<rparr>"

definition demo_world_stale_token :: world where
  "demo_world_stale_token =
     demo_world\<lparr>redis := [TOKEN_KEY \<mapsto>
                   (demo_stringify_TokenCache \<lparr>accessToken = ascii ''AT1'', expiresAt = 1300\<rparr>,
                    Some 1300000)],
                 token_api := [Token_data None (ascii ''AT2'') 7200]\<rparr>"

definition demo_world_rejected :: world where
  \<comment> \<open>a cached token the platform no longer accepts: the first message is answered 40001\<close>
  "demo_world_rejected =
     demo_world\<lparr>redis := [TOKEN_KEY \<mapsto>
                   (demo_stringify_TokenCache \<lparr>accessToken = ascii ''AT1'', expiresAt = 8000\<rparr>,
                    Some 8000000)],
                 token_api := [Token_data None (ascii ''AT2'') 7200],
                 send_api := [Send_data (Some 40001), Send_data (Some 0)]\<rparr>"

definition demo_query :: WeChatQueryParams where
  \<comment> \<open>a request the platform signed with the configured token, without \<open>echostr\<close>\<close>
  "demo_query =
     \<lparr>q_signature = Some (ascii ''sha1:1700000000n0ncesecret''),
      q_timestamp = Some (ascii ''1700000000''),
      q_nonce = Some (ascii ''n0nce''),
      q_echostr = None\<rparr>"

definition demo_message :: WeChatMessage where
  \<comment> \<open>a text message without content, from the subject \<open>U1\<close>\<close>
  "demo_message =
     \<lparr>ToUserName = ascii ''gh_account'', FromUserName = ascii ''U1'', CreateTime = 1700000000,
      MsgType = ascii ''text'', Content = None, MsgId = Some (ascii ''1234567890''),
      Event = None, EventKey = None, PicUrl = None, MediaId = None, Format = None,
      Recognition = None, ThumbMediaId = None, Location_X = None, Location_Y = None,
      Scale = None, Label = None, Title = None, Description = None, Url = None\<rparr>"

definition text_message :: "ustring \<Rightarrow> ustring \<Rightarrow> WeChatMessage" where
  \<comment> \<open>the text message with the given content from the given subject\<close>
  "text_message openId content = demo_message\<lparr>FromUserName := openId, Content := Some content\<rparr>"

definition bind_command :: "ustring \<Rightarrow> ustring \<Rightarrow> ustring" where
  \<comment> \<open>the text \<open>bind <url> <tok>\<close>\<close>
  "bind_command url tok = ascii ''bind '' @ url @ ascii '' '' @ tok"

definition nonblank :: "ustring \<Rightarrow> bool" where
  \<comment> \<open>what \<open>\S+\<close> matches: one character or more, none of them white space\<close>
  "nonblank s \<longleftrightarrow> s \<noteq> [] \<and> list_all (\<lambda>c. \<not> isWhiteSpace c) s"

definition demo_url :: ustring where
  "demo_url = ascii ''http://runtime.example/webhook''"

definition demo_tok :: ustring where
  "demo_tok = ascii ''tok1''"

definition demo_url2 :: ustring where
  "demo_url2 = ascii ''https://other.example/hook''"

definition demo_tok2 :: ustring where
  "demo_tok2 = ascii ''tok2''"

definition demo_binding :: UserBinding where
  "demo_binding = \<lparr>endpoint = demo_url, token = demo_tok, createdAt = 1000000\<rparr>"

definition demo_binding2 :: UserBinding where
  "demo_binding2 = \<lparr>endpoint = demo_url2, token = demo_tok2, createdAt = 1000000\<rparr>"

definition demo_world_bound :: world where
  \<comment> \<open>the store after \<open>U1\<close> has sent \<open>bind http://runtime.example/webhook tok1\<close>\<close>
  "demo_world_bound = setBinding demo_env demo_world (ascii ''U1'') demo_url demo_tok"

definition with_key :: "ustring \<Rightarrow> (ustring \<times> nat option) option \<Rightarrow> world \<Rightarrow> world" where
  \<comment> \<open>the world with the Redis key \<open>k\<close> set to the entry \<open>x\<close>, or removed\<close>
  "with_key k x w = w\<lparr>redis := (redis w)(k := x)\<rparr>"

definition demo_world_corrupt :: world where
  \<comment> \<open>the binding of \<open>U1\<close> holds a value that is not JSON\<close>
  "demo_world_corrupt =
     demo_world\<lparr>redis := [BINDING_PREFIX @ ascii ''U1'' \<mapsto> (ascii ''{endpoint'', None)]\<rparr>"

section \<open>Properties\<close>

text \<open>
  C3: a signature produced by \<open>generateSignature\<close> is accepted by \<open>validateSignature\<close> for
  the same token, timestamp and nonce; replacing any single character of it by a different
  one makes \<open>validateSignature\<close> reject it; and the signature is the digest of the
  concatenation of the three strings arranged in ascending lexicographic order, whatever
  the order of the arguments.
\<close>

theorem C3_signature_roundtrip:
  fixes sha1_hex :: "ustring \<Rightarrow> ustring" and token timestamp nonce :: ustring
  defines "sig \<equiv> generateSignature sha1_hex token timestamp nonce"
  shows "validateSignature sha1_hex token sig timestamp nonce
       \<and> (\<forall>i c. i < length sig \<and> c \<noteq> sig ! i \<longrightarrow>
             \<not> validateSignature sha1_hex token (sig[i := c]) timestamp nonce)
       \<and> sig = sha1_hex (concat (sort [token, timestamp, nonce]))
       \<and> sorted (sort [token, timestamp, nonce])
       \<and> mset (sort [token, timestamp, nonce]) = mset [token, timestamp, nonce]"
proof -
  have valid: "validateSignature sha1_hex token s timestamp nonce \<longleftrightarrow> s = sig" for s
    unfolding validateSignature_def generateSignature_def sig_def Let_def by auto
  have mut: "sig[i := c] \<noteq> sig" if "i < length sig" "c \<noteq> sig ! i" for i c
  proof
    assume "sig[i := c] = sig"
    then have "sig[i := c] ! i = sig ! i" by simp
    with that show False by simp
  qed
  have "sig = sha1_hex (concat (sort [token, timestamp, nonce]))"
    unfolding sig_def generateSignature_def Let_def ..
  moreover have "sorted (sort [token, timestamp, nonce])" by (rule sorted_sort)
  moreover have "mset (sort [token, timestamp, nonce]) = mset [token, timestamp, nonce]"
    by (rule mset_sort)
  ultimately show ?thesis using valid mut by blast
qed

lemma demo_signature: "generateSignature demo_sha1_hex (ascii ''secret'') (ascii ''1700000000'') (ascii ''n0nce'') = ascii ''sha1:1700000000n0ncesecret''"
  by (simp add: generateSignature_def demo_sha1_hex_def ascii_def)

lemma demo_signature_mutated: "ascii ''Sha1:1700000000n0ncesecret'' = (ascii ''sha1:1700000000n0ncesecret'')[0 := 83]"
  by (simp add: ascii_def)

lemma demo_signature_mutation_differs: "0 < length (ascii ''sha1:1700000000n0ncesecret'') \<and> 83 \<noteq> (ascii ''sha1:1700000000n0ncesecret'') ! 0"
  by (simp add: ascii_def)

theorem C3_signature_roundtrip_witness:
  "validateSignature demo_sha1_hex (ascii ''secret'')
     (generateSignature demo_sha1_hex (ascii ''secret'') (ascii ''1700000000'') (ascii ''n0nce''))
     (ascii ''1700000000'') (ascii ''n0nce'')
   \<and> generateSignature demo_sha1_hex (ascii ''secret'') (ascii ''1700000000'') (ascii ''n0nce'')
       = ascii ''sha1:1700000000n0ncesecret''
   \<and> \<not> validateSignature demo_sha1_hex (ascii ''secret'') (ascii ''Sha1:1700000000n0ncesecret'')
         (ascii ''1700000000'') (ascii ''n0nce'')"
proof -
  note th = C3_signature_roundtrip [of demo_sha1_hex "ascii ''secret''" "ascii ''1700000000''" "ascii ''n0nce''",
      unfolded demo_signature]
  from th have v: "validateSignature demo_sha1_hex (ascii ''secret'') (ascii ''sha1:1700000000n0ncesecret'')
     (ascii ''1700000000'') (ascii ''n0nce'')" by (rule conjunct1)
  from th have "\<forall>i c. i < length (ascii ''sha1:1700000000n0ncesecret'') \<and> c \<noteq> ascii ''sha1:1700000000n0ncesecret'' ! i \<longrightarrow>
             \<not> validateSignature demo_sha1_hex (ascii ''secret'') ((ascii ''sha1:1700000000n0ncesecret'')[i := c]) (ascii ''1700000000'') (ascii ''n0nce'')"
    by (rule conjunct1 [OF conjunct2])
  then have "\<not> validateSignature demo_sha1_hex (ascii ''secret'') ((ascii ''sha1:1700000000n0ncesecret'')[0 := 83]) (ascii ''1700000000'') (ascii ''n0nce'')"
    using demo_signature_mutation_differs by blast
  then show ?thesis using v demo_signature demo_signature_mutated by simp
qed

subsection \<open>Splitting a long text\<close>

lemma lastIndexOf_minus_one:
  "lastIndexOf s c k = - 1 \<longleftrightarrow> c \<notin> set (take (Suc k) s)"
proof -
  have "dropWhile (\<lambda>x. x \<noteq> c) (rev (take (Suc k) s)) = [] \<longleftrightarrow> c \<notin> set (take (Suc k) s)"
    by (simp only: dropWhile_eq_Nil_conv set_rev) blast
  then show ?thesis
    by (simp add: lastIndexOf_def Let_def)
qed

lemma lastIndexOf_found:
  assumes "lastIndexOf s c k = int i"
  shows "i \<le> k \<and> i < length s \<and> s ! i = c \<and> (\<forall>j. i < j \<and> j \<le> k \<and> j < length s \<longrightarrow> s ! j \<noteq> c)"
proof -
  define p where "p = take (Suc k) s"
  define t where "t = takeWhile (\<lambda>x. x \<noteq> c) (rev p)"
  define q where "q = dropWhile (\<lambda>x. x \<noteq> c) (rev p)"
  from assms have q: "q \<noteq> []" and i: "i = length q - 1"
    by (auto simp: lastIndexOf_def Let_def q_def p_def split: if_splits)
  have "hd q = c" using hd_dropWhile [of "\<lambda>x. x \<noteq> c" "rev p"] q by (simp add: q_def)
  with q have qc: "q = c # tl q" by (cases q) auto
  have "rev p = t @ q" by (simp add: t_def q_def)
  then have "rev (rev p) = rev (t @ q)" by (rule arg_cong)
  then have "p = rev q @ rev t" by simp
  moreover have "rev q = rev (tl q) @ [c]" by (subst qc) simp
  ultimately have p: "p = rev (tl q) @ c # rev t" by simp
  have "length (tl q) = length q - 1" by simp
  with i have li: "length (tl q) = i" by simp
  have lp: "length p = i + 1 + length t" by (subst p) (simp add: i)
  have "length p \<le> Suc k" "length p \<le> length s" by (simp_all add: p_def)
  with lp have b: "i \<le> k" "i < length s" by linarith+
  have "p ! i = c" by (subst p) (simp add: nth_append i)
  then have c: "s ! i = c" using b by (simp add: p_def)
  have d: "s ! j \<noteq> c" if "i < j" "j \<le> k" "j < length s" for j
  proof -
    have jp: "j < length p" using that by (simp add: p_def)
    have "p ! j = rev t ! (j - i - 1)"
      using that by (subst p) (simp add: nth_append i nth_Cons')
    moreover have "j - i - 1 < length (rev t)" using jp lp that by simp
    ultimately have "p ! j \<in> set (rev t)" using nth_mem by metis
    then have "p ! j \<in> set t" by simp
    then have "p ! j \<noteq> c" unfolding t_def by (auto dest: set_takeWhileD)
    then show ?thesis using that by (simp add: p_def)
  qed
  from b c d show ?thesis by blast
qed

lemma splitIndex_cases:
  "splitIndex s =
     (if int MAX_LENGTH div 2 \<le> lastIndexOf s 10 MAX_LENGTH then lastIndexOf s 10 MAX_LENGTH
      else if int MAX_LENGTH div 2 \<le> lastIndexOf s 32 MAX_LENGTH then lastIndexOf s 32 MAX_LENGTH
      else int MAX_LENGTH)"
  by (auto simp: splitIndex_def Let_def MAX_LENGTH_def)

lemma splitIndex_nat_bounds:
  "MAX_LENGTH div 2 \<le> nat (splitIndex s) \<and> nat (splitIndex s) \<le> MAX_LENGTH"
  using splitIndex_bounds [of s] unfolding MAX_LENGTH_def by linarith

lemma splitChunks_short: "0 < length s \<Longrightarrow> length s \<le> MAX_LENGTH \<Longrightarrow> splitChunks s = [s]"
  by (simp add: splitChunks.simps)

lemma splitChunks_long:
  "MAX_LENGTH < length s \<Longrightarrow>
   splitChunks s = take (nat (splitIndex s)) s # splitChunks (trimStart (drop (nat (splitIndex s)) s))"
  by (subst splitChunks.simps) (auto simp: substring_def substring_from_def)

lemma splitChunks_Nil: "splitChunks [] = []"
  by (simp add: splitChunks.simps)

lemma splitChunks_lengths:
  "\<forall>c \<in> set (splitChunks s). 0 < length c \<and> length c \<le> MAX_LENGTH"
proof (induction s rule: splitChunks.induct)
  case (1 remaining)
  show ?case
  proof (cases "MAX_LENGTH < length remaining")
    case True
    have ne: "remaining \<noteq> []" using True by auto
    have "0 < nat (splitIndex remaining) \<and> nat (splitIndex remaining) \<le> MAX_LENGTH"
      using splitIndex_nat_bounds [of remaining] unfolding MAX_LENGTH_def by linarith
    with True 1 ne show ?thesis
      by (simp add: splitChunks_long substring_from_def)
  next
    case False
    then show ?thesis by (cases "remaining = []") (simp_all add: splitChunks.simps)
  qed
qed

lemma splitChunks_butlast_lengths:
  "\<forall>c \<in> set (butlast (splitChunks s)). MAX_LENGTH div 2 \<le> length c"
proof (induction s rule: splitChunks.induct)
  case (1 remaining)
  show ?case
  proof (cases "MAX_LENGTH < length remaining")
    case True
    have ne: "remaining \<noteq> []" using True by auto
    have "MAX_LENGTH div 2 \<le> nat (splitIndex remaining) \<and> nat (splitIndex remaining) \<le> MAX_LENGTH"
      by (rule splitIndex_nat_bounds)
    with True 1 ne show ?thesis
      by (simp add: splitChunks_long substring_from_def)
  next
    case False
    then show ?thesis by (cases "remaining = []") (simp_all add: splitChunks.simps)
  qed
qed

lemma filter_dropWhile_same: "filter (\<lambda>x. \<not> P x) (dropWhile P xs) = filter (\<lambda>x. \<not> P x) xs"
  by (induction xs) auto

lemma splitChunks_keeps_text:
  "filter (\<lambda>c. \<not> isWhiteSpace c) (concat (splitChunks s)) = filter (\<lambda>c. \<not> isWhiteSpace c) s"
proof (induction s rule: splitChunks.induct)
  case (1 remaining)
  show ?case
  proof (cases "MAX_LENGTH < length remaining")
    case True
    let ?i = "nat (splitIndex remaining)"
    from True have "remaining \<noteq> []" by auto
    have "filter (\<lambda>c. \<not> isWhiteSpace c) (concat (splitChunks remaining))
          = filter (\<lambda>c. \<not> isWhiteSpace c) (take ?i remaining)
            @ filter (\<lambda>c. \<not> isWhiteSpace c) (trimStart (drop ?i remaining))"
      using True 1 \<open>remaining \<noteq> []\<close> by (simp add: splitChunks_long substring_from_def)
    also have "\<dots> = filter (\<lambda>c. \<not> isWhiteSpace c) (take ?i remaining @ drop ?i remaining)"
      by (simp only: trimStart_def filter_dropWhile_same filter_append)
    finally show ?thesis by (simp only: append_take_drop_id)
  next
    case False
    then show ?thesis by (cases "remaining = []") (simp_all add: splitChunks.simps)
  qed
qed

lemma subseq_dropWhile: "subseq (dropWhile P xs) xs"
  by (induction xs) auto

lemma splitChunks_in_order: "subseq (concat (splitChunks s)) s"
proof (induction s rule: splitChunks.induct)
  case (1 remaining)
  show ?case
  proof (cases "MAX_LENGTH < length remaining")
    case True
    let ?i = "nat (splitIndex remaining)"
    from True have "remaining \<noteq> []" by auto
    have "subseq (concat (splitChunks (trimStart (drop ?i remaining)))) (trimStart (drop ?i remaining))"
      using True 1 \<open>remaining \<noteq> []\<close> by (simp add: substring_from_def)
    moreover have "subseq (trimStart (drop ?i remaining)) (drop ?i remaining)"
      by (simp add: trimStart_def subseq_dropWhile)
    ultimately have "subseq (concat (splitChunks (trimStart (drop ?i remaining)))) (drop ?i remaining)"
      by (rule subseq_order.order_trans)
    then have "subseq (take ?i remaining @ concat (splitChunks (trimStart (drop ?i remaining))))
                 (take ?i remaining @ drop ?i remaining)"
      by (rule list_emb_append_mono [OF subseq_order.order_refl])
    then show ?thesis using True by (simp add: splitChunks_long)
  next
    case False
    then show ?thesis by (cases "remaining = []") (simp_all add: splitChunks.simps)
  qed
qed

lemma lastIndexOf_at:
  assumes "length a \<le> k" and "c \<notin> set (take (k - length a) b)"
  shows "lastIndexOf (a @ c # b) c k = int (length a)"
proof -
  have "take (Suc k) (a @ c # b) = a @ c # take (k - length a) b"
    using assms(1) by (simp add: Suc_diff_le)
  then have "rev (take (Suc k) (a @ c # b)) = rev (take (k - length a) b) @ c # rev a"
    by simp
  moreover have "dropWhile (\<lambda>x. x \<noteq> c) (rev (take (k - length a) b) @ c # rev a) = c # rev a"
    using assms(2) by (auto simp: dropWhile_append3)
  ultimately show ?thesis
    by (simp add: lastIndexOf_def)
qed

lemma splitChunks_hard_cut:
  assumes "MAX_LENGTH < length s" and "10 \<notin> set (take (Suc MAX_LENGTH) s)"
    and "32 \<notin> set (take (Suc MAX_LENGTH) s)"
  shows "splitChunks s = take MAX_LENGTH s # splitChunks (trimStart (drop MAX_LENGTH s))"
proof -
  have "lastIndexOf s 10 MAX_LENGTH = - 1" "lastIndexOf s 32 MAX_LENGTH = - 1"
    using assms by (simp_all add: lastIndexOf_minus_one)
  then have "splitIndex s = int MAX_LENGTH"
    by (simp add: splitIndex_cases MAX_LENGTH_def)
  with assms(1) show ?thesis by (simp add: splitChunks_long)
qed

lemma splitChunks_at_space:
  assumes "MAX_LENGTH < length (a @ 32 # b)" and "MAX_LENGTH div 2 \<le> length a"
    and "length a \<le> MAX_LENGTH" and "10 \<notin> set (take (Suc MAX_LENGTH) (a @ 32 # b))"
    and "32 \<notin> set (take (MAX_LENGTH - length a) b)"
  shows "splitChunks (a @ 32 # b) = a # splitChunks (trimStart (32 # b))"
proof -
  have "lastIndexOf (a @ 32 # b) 10 MAX_LENGTH = - 1"
    using assms(4) by (simp add: lastIndexOf_minus_one)
  moreover have "lastIndexOf (a @ 32 # b) 32 MAX_LENGTH = int (length a)"
    using assms(3,5) by (rule lastIndexOf_at)
  ultimately have "splitIndex (a @ 32 # b) = int (length a)"
    using assms(2) by (simp add: splitIndex_cases MAX_LENGTH_def)
  with assms(1) show ?thesis by (simp add: splitChunks_long)
qed

lemma splitChunks_no_white_space_1450:
  assumes "length s = 1450" and "\<forall>c \<in> set s. \<not> isWhiteSpace c"
  shows "splitChunks s = [take 600 s, take 600 (drop 600 s), drop 1200 s]"
proof -
  have ws: "isWhiteSpace 10" "isWhiteSpace 32" by (simp_all add: isWhiteSpace_def)
  have no: "10 \<notin> set t \<and> 32 \<notin> set t" if "set t \<subseteq> set s" for t
    using assms(2) ws that by blast
  have trim: "trimStart (drop n s) = drop n s" for n
  proof -
    have "\<forall>c \<in> set (drop n s). \<not> isWhiteSpace c"
      using assms(2) by (meson in_set_dropD)
    then show ?thesis
      unfolding trimStart_def by (cases "drop n s") simp_all
  qed
  have 1: "splitChunks s = take 600 s # splitChunks (drop 600 s)"
    using splitChunks_hard_cut [of s] no [of "take (Suc MAX_LENGTH) s"] assms(1) trim [of 600]
    by (simp add: MAX_LENGTH_def set_take_subset)
  have 2: "splitChunks (drop 600 s) = take 600 (drop 600 s) # splitChunks (drop 1200 s)"
    using splitChunks_hard_cut [of "drop 600 s"] no [of "take (Suc MAX_LENGTH) (drop 600 s)"]
      assms(1) trim [of 1200]
    by (simp add: MAX_LENGTH_def trimStart_def) (metis set_drop_subset set_take_subset subset_trans)
  have 3: "splitChunks (drop 1200 s) = [drop 1200 s]"
    using assms(1) by (simp add: splitChunks_short MAX_LENGTH_def)
  from 1 2 3 show ?thesis by simp
qed

subsection \<open>The token manager\<close>

lemma request_token_frame:
  "request_token env w = (r, w') \<Longrightarrow>
     posts w' = posts w \<and> send_api w' = send_api w \<and> forwards w' = forwards w \<and> clock w' = clock w
     \<and> token_requests w' = Suc (token_requests w)"
  by (auto simp: request_token_def Let_def redis_set_EX_def console_def
      split: list.splits token_reply.splits if_splits sum.splits)

lemma refresh_holding_lock_frame:
  "refresh_holding_lock env w = (r, w') \<Longrightarrow>
     posts w' = posts w \<and> send_api w' = send_api w \<and> forwards w' = forwards w \<and> clock w' = clock w
     \<and> token_requests w' = Suc (token_requests w)"
  by (auto simp: refresh_holding_lock_def redis_del_def split: prod.splits dest: request_token_frame)

lemma refreshAccessToken_unfold:
  "refreshAccessToken env fuel w =
     (case redis_set_EX_NX w TOKEN_LOCK_KEY (ascii ''1'') 30 of
        (False, w1) \<Rightarrow> (case fuel of 0 \<Rightarrow> None | Suc n \<Rightarrow> getAccessToken env n (sleep 1000 w1))
      | (True, w1) \<Rightarrow> Some (refresh_holding_lock env w1))"
  by (cases fuel) (auto simp: refreshAccessToken.simps split: prod.splits bool.splits)

lemma token_manager_frame:
  "(getAccessToken env fuel w = Some (r, w') \<longrightarrow>
      posts w' = posts w \<and> send_api w' = send_api w \<and> forwards w' = forwards w)
   \<and> (refreshAccessToken env fuel w = Some (r, w') \<longrightarrow>
      posts w' = posts w \<and> send_api w' = send_api w \<and> forwards w' = forwards w)"
proof (induction fuel arbitrary: w)
  case 0
  have r: "refreshAccessToken env 0 w = Some (r, w') \<longrightarrow>
      posts w' = posts w \<and> send_api w' = send_api w \<and> forwards w' = forwards w"
    by (auto simp: redis_set_EX_NX_def refreshAccessToken.simps split: if_splits
        dest!: refresh_holding_lock_frame)
  then show ?case
    by (auto simp: Let_def simp: getAccessToken.simps split: option.splits if_splits)
next
  case (Suc fuel)
  have r: "refreshAccessToken env (Suc fuel) w = Some (r, w') \<longrightarrow>
      posts w' = posts w \<and> send_api w' = send_api w \<and> forwards w' = forwards w"
    using Suc [of "sleep 1000 w"]
    by (auto simp: redis_set_EX_NX_def sleep_def simp: refreshAccessToken.simps
        split: if_splits dest!: refresh_holding_lock_frame)
  then show ?case
    by (auto simp: Let_def simp: getAccessToken.simps split: option.splits if_splits)
qed

lemma refreshAccessToken_lock_free:
  assumes "redis_get w TOKEN_LOCK_KEY = None"
  shows "refreshAccessToken env fuel w =
           Some (refresh_holding_lock env
                   (w\<lparr>redis := (redis w)(TOKEN_LOCK_KEY \<mapsto> (ascii ''1'', Some (clock w + 1000 * 30)))\<rparr>))"
  using assms by (simp add: refreshAccessToken_unfold redis_set_EX_NX_def)

text \<open>
  C8: \<open>getAccessToken\<close> returns the cached token, and leaves the world as it is, when the
  clock in seconds is strictly below \<open>expiresAt - 600\<close>; otherwise, and when nothing is
  cached, its result is that of \<open>refreshAccessToken\<close>. A token with
  \<open>expiresAt = now + 300\<close> is refreshed although \<open>now < expiresAt\<close>. A refresh that finds
  the lock free asks the platform for a token, once.
\<close>

theorem C8_token_cache_freshness:
  fixes w :: world and tokenData :: TokenCache
  defines "now \<equiv> int (clock w div 1000)"
  shows "(redis_get w TOKEN_KEY = Some cached \<and> cached \<noteq> []
            \<and> JSON_parse_TokenCache env cached = Some tokenData \<longrightarrow>
           (now < expiresAt tokenData - 600 \<longrightarrow>
              getAccessToken env fuel w = Some (Inr (accessToken tokenData), w))
         \<and> (\<not> now < expiresAt tokenData - 600 \<longrightarrow>
              getAccessToken env fuel w = refreshAccessToken env fuel w)
         \<and> (expiresAt tokenData = now + 300 \<longrightarrow>
              now < expiresAt tokenData \<and> getAccessToken env fuel w = refreshAccessToken env fuel w))
       \<and> (redis_get w TOKEN_KEY = None \<longrightarrow>
             getAccessToken env fuel w = refreshAccessToken env fuel w)
       \<and> (redis_get w TOKEN_LOCK_KEY = None \<longrightarrow>
             (\<exists>r w'. refreshAccessToken env fuel w = Some (r, w')
                    \<and> token_requests w' = Suc (token_requests w)))"
proof -
  have fresh: "getAccessToken env fuel w = Some (Inr (accessToken tokenData), w)"
    if "redis_get w TOKEN_KEY = Some cached" "cached \<noteq> []"
      "JSON_parse_TokenCache env cached = Some tokenData" "now < expiresAt tokenData - 600"
    using that by (simp add: now_def TOKEN_REFRESH_THRESHOLD_def getAccessToken.simps)
  have stale: "getAccessToken env fuel w = refreshAccessToken env fuel w"
    if "redis_get w TOKEN_KEY = Some cached" "cached \<noteq> []"
      "JSON_parse_TokenCache env cached = Some tokenData" "\<not> now < expiresAt tokenData - 600"
    using that by (simp add: now_def TOKEN_REFRESH_THRESHOLD_def getAccessToken.simps)
  have absent: "getAccessToken env fuel w = refreshAccessToken env fuel w"
    if "redis_get w TOKEN_KEY = None"
    using that by (simp add: getAccessToken.simps)
  have asks: "\<exists>r w'. refreshAccessToken env fuel w = Some (r, w')
                    \<and> token_requests w' = Suc (token_requests w)"
    if free: "redis_get w TOKEN_LOCK_KEY = None"
  proof -
    let ?w1 = "w\<lparr>redis := (redis w)(TOKEN_LOCK_KEY \<mapsto> (ascii ''1'', Some (clock w + 1000 * 30)))\<rparr>"
    obtain r w' where rw: "refresh_holding_lock env ?w1 = (r, w')" by (cases "refresh_holding_lock env ?w1")
    then have "token_requests w' = Suc (token_requests ?w1)"
      by (auto dest: refresh_holding_lock_frame)
    with rw free show ?thesis
      by (simp add: refreshAccessToken_lock_free)
  qed
  from fresh stale absent asks show ?thesis by auto
qed

lemma demo_TokenCache_roundtrip:
  "demo_parse_TokenCache (demo_stringify_TokenCache \<lparr>accessToken = ascii ''AT1'', expiresAt = 1300\<rparr>)
     = Some \<lparr>accessToken = ascii ''AT1'', expiresAt = 1300\<rparr>"
  by (simp add: demo_parse_TokenCache_def demo_stringify_TokenCache_def ascii_def read_nat_def)

lemma demo_stale_cached:
  "redis_get demo_world_stale_token TOKEN_KEY
     = Some (demo_stringify_TokenCache \<lparr>accessToken = ascii ''AT1'', expiresAt = 1300\<rparr>)"
  by (simp add: redis_get_def demo_world_stale_token_def demo_world_def)

lemma demo_stale_lock_free: "redis_get demo_world_stale_token TOKEN_LOCK_KEY = None"
  by (simp add: redis_get_def demo_world_stale_token_def demo_world_def TOKEN_KEY_def
      TOKEN_LOCK_KEY_def ascii_def)

lemma demo_stale_refresh:
  "map_option fst (refreshAccessToken demo_env 0 demo_world_stale_token) = Some (Inr (ascii ''AT2''))"
  by (simp add: refreshAccessToken.simps redis_set_EX_NX_def redis_get_def refresh_holding_lock_def
      request_token_def demo_world_stale_token_def demo_world_def redis_set_EX_def redis_del_def
      console_def demo_env_def Let_def TOKEN_KEY_def TOKEN_LOCK_KEY_def ascii_def)


lemma demo_stringify_TokenCache_nonempty: "demo_stringify_TokenCache c \<noteq> []"
  by (simp add: demo_stringify_TokenCache_def)

theorem C8_token_cache_freshness_witness:
  "redis_get demo_world_stale_token TOKEN_KEY
     = Some (demo_stringify_TokenCache \<lparr>accessToken = ascii ''AT1'', expiresAt = 1300\<rparr>)
   \<and> int (clock demo_world_stale_token div 1000) = 1000
   \<and> getAccessToken demo_env 0 demo_world_stale_token
       = refreshAccessToken demo_env 0 demo_world_stale_token
   \<and> map_option fst (getAccessToken demo_env 0 demo_world_stale_token) = Some (Inr (ascii ''AT2''))"
proof -
  have now: "int (clock demo_world_stale_token div 1000) = 1000"
    by (simp add: demo_world_stale_token_def demo_world_def)
  have parse: "JSON_parse_TokenCache demo_env
                 (demo_stringify_TokenCache \<lparr>accessToken = ascii ''AT1'', expiresAt = 1300\<rparr>)
               = Some \<lparr>accessToken = ascii ''AT1'', expiresAt = 1300\<rparr>"
    using demo_TokenCache_roundtrip by (simp add: demo_env_def)
  note th = C8_token_cache_freshness [where w = demo_world_stale_token and env = demo_env
      and fuel = 0 and tokenData = "\<lparr>accessToken = ascii ''AT1'', expiresAt = 1300\<rparr>"
      and cached = "demo_stringify_TokenCache \<lparr>accessToken = ascii ''AT1'', expiresAt = 1300\<rparr>"]
  from th demo_stale_cached parse demo_stringify_TokenCache_nonempty now
  have eq: "getAccessToken demo_env 0 demo_world_stale_token
              = refreshAccessToken demo_env 0 demo_world_stale_token"
    by simp
  show ?thesis
    using demo_stale_cached now eq demo_stale_refresh by simp
qed

lemma TOKEN_KEY_neq_LOCK: "TOKEN_KEY \<noteq> TOKEN_LOCK_KEY"
  by (simp add: TOKEN_KEY_def TOKEN_LOCK_KEY_def ascii_def)

lemma redis_get_same:
  "redis w' = redis w \<Longrightarrow> clock w' = clock w \<Longrightarrow> redis_get w' k = redis_get w k"
  by (simp add: redis_get_def split: option.splits prod.splits)

lemma redis_get_del:
  "redis_get (snd (redis_del w k)) k' = (if k' = k then None else redis_get w k')"
  by (simp add: redis_get_def redis_del_def split: option.splits prod.splits)

lemma redis_get_upd:
  "redis_get (w\<lparr>redis := (redis w)(k \<mapsto> (v, e))\<rparr>) k' =
     (if k' = k then (case e of None \<Rightarrow> Some v | Some t \<Rightarrow> if clock w < t then Some v else None)
      else redis_get w k')"
  by (simp add: redis_get_def split: option.splits prod.splits)

lemma forceRefreshToken_invalidates:
  "redis_get (snd (redis_del w TOKEN_KEY)) TOKEN_KEY = None"
  by (simp add: redis_del_def redis_get_def)

lemma forceRefreshToken_normal:
  fixes w :: world and tok :: ustring and ex :: nat
  defines "td \<equiv> \<lparr>accessToken = tok, expiresAt = int (clock w div 1000) + int ex\<rparr>"
  assumes free: "redis_get w TOKEN_LOCK_KEY = None"
    and reply: "token_api w = Token_data ec tok ex # later"
    and ok: "ec = None \<or> ec = Some 0"
    and long: "600 < ex"
    and roundtrip: "JSON_parse_TokenCache env (JSON_stringify_TokenCache env td) = Some td"
    and nonempty: "JSON_stringify_TokenCache env td \<noteq> []"
  shows "\<exists>w3. forceRefreshToken env fuel w = Some (Inr tok, w3)
            \<and> getAccessToken env fuel w3 = Some (Inr tok, w3)
            \<and> token_requests w3 = Suc (token_requests w)
            \<and> token_api w3 = later
            \<and> posts w3 = posts w \<and> send_api w3 = send_api w"
proof -
  let ?w0 = "snd (redis_del w TOKEN_KEY)"
  have free0: "redis_get ?w0 TOKEN_LOCK_KEY = None"
    using free TOKEN_KEY_neq_LOCK by (simp add: redis_get_del)
  let ?w1 = "?w0\<lparr>redis := (redis ?w0)(TOKEN_LOCK_KEY \<mapsto> (ascii ''1'', Some (clock ?w0 + 1000 * 30)))\<rparr>"
  have force: "forceRefreshToken env fuel w = Some (refresh_holding_lock env ?w1)"
    unfolding forceRefreshToken_def by (rule refreshAccessToken_lock_free [OF free0])
  obtain w3 where w3: "refresh_holding_lock env ?w1 = (Inr tok, w3)"
    and cached: "redis w3 TOKEN_KEY = Some (JSON_stringify_TokenCache env td, Some (clock w + 1000 * ex))"
    and same: "clock w3 = clock w" "token_requests w3 = Suc (token_requests w)" "token_api w3 = later"
      "posts w3 = posts w" "send_api w3 = send_api w"
    using reply ok long TOKEN_KEY_neq_LOCK
    by (auto simp: refresh_holding_lock_def request_token_def redis_set_EX_def redis_del_def
        console_def Let_def td_def)
  have "redis_get w3 TOKEN_KEY = Some (JSON_stringify_TokenCache env td)"
    using cached same(1) long by (simp add: redis_get_def)
  then have "getAccessToken env fuel w3 = Some (Inr tok, w3)"
    using roundtrip nonempty same(1) long
    by (simp add: td_def TOKEN_REFRESH_THRESHOLD_def getAccessToken.simps)
  with force w3 same show ?thesis by simp
qed

subsection \<open>Sending a customer service message\<close>

lemma getAccessToken_frame:
  "getAccessToken env fuel w = Some (r, w') \<Longrightarrow>
     posts w' = posts w \<and> send_api w' = send_api w \<and> forwards w' = forwards w"
  using token_manager_frame by blast

lemma forceRefreshToken_frame:
  "forceRefreshToken env fuel w = Some (r, w') \<Longrightarrow>
     posts w' = posts w \<and> send_api w' = send_api w \<and> forwards w' = forwards w"
  using token_manager_frame [of env fuel "snd (redis_del w TOKEN_KEY)" r w']
  by (simp add: forceRefreshToken_def redis_del_def)

lemma sendCustomerServiceMessage_rejected:
  assumes "getAccessToken env fuel w = Some (Inr t1, w1)"
    and "send_api w1 = Send_data (Some 40001) # replies"
  shows "sendCustomerServiceMessage env message True fuel w =
           (case forceRefreshToken env fuel
                   (console Warn_token_expired
                      (w1\<lparr>send_api := replies, posts := posts w1 @ [(t1, message)]\<rparr>)) of
              None \<Rightarrow> None
            | Some (Inl e, w3) \<Rightarrow> Some (False, console (Error_send_threw e) w3)
            | Some (Inr x, w3) \<Rightarrow> sendCustomerServiceMessage env message False fuel w3)"
  by (subst sendCustomerServiceMessage.simps) (simp add: assms Let_def)

lemma sendCustomerServiceMessage_no_retry:
  assumes "getAccessToken env fuel w = Some (Inr t, w1)"
  shows "\<exists>w'. sendCustomerServiceMessage env message False fuel w
                 = Some (take 1 (send_api w1) = [Send_data (Some 0)], w')
              \<and> posts w' = posts w1 @ [(t, message)] \<and> send_api w' = tl (send_api w1)
              \<and> token_requests w' = token_requests w1"
proof (cases "send_api w1")
  case Nil
  then show ?thesis
    by (subst sendCustomerServiceMessage.simps) (simp add: assms Let_def console_def)
next
  case (Cons reply rest)
  then show ?thesis
    by (subst sendCustomerServiceMessage.simps)
      (cases reply; simp add: assms Let_def console_def)
qed

text \<open>
  C6: when the platform answers a customer service message with the error code 40001,
  \<open>sendCustomerServiceMessage\<close> deletes the cached token and refreshes it, and, once a token
  is back, posts the message a second time and returns what that attempt gives: \<open>true\<close>
  when the answer is the error code 0, \<open>false\<close> on any other answer, a second 40001
  included, with no third post. When the refresh throws, it returns \<open>false\<close> without a
  second post. With the lock free and a platform that grants a token valid for more than
  600 seconds, the second post carries that new token and one token request was made.
\<close>

theorem C6_auth_rejected_retry_once:
  fixes w1 :: world and t1 :: ustring and message :: CustomerServiceMessage
    and tok :: ustring and ex :: nat
  defines "w2 \<equiv> console Warn_token_expired
                   (w1\<lparr>send_api := tl (send_api w1), posts := posts w1 @ [(t1, message)]\<rparr>)"
  defines "td \<equiv> \<lparr>accessToken = tok, expiresAt = int (clock w1 div 1000) + int ex\<rparr>"
  assumes first: "getAccessToken env fuel w = Some (Inr t1, w1)"
    and rejected: "take 1 (send_api w1) = [Send_data (Some 40001)]"
  shows "redis_get (snd (redis_del w2 TOKEN_KEY)) TOKEN_KEY = None
       \<and> forceRefreshToken env fuel w2 = refreshAccessToken env fuel (snd (redis_del w2 TOKEN_KEY))
       \<and> (\<forall>e w3. forceRefreshToken env fuel w2 = Some (Inl e, w3) \<longrightarrow>
             sendCustomerServiceMessage env message True fuel w
               = Some (False, console (Error_send_threw e) w3)
             \<and> posts w3 = posts w @ [(t1, message)])
       \<and> (\<forall>t' w3 t2 w4.
             forceRefreshToken env fuel w2 = Some (Inr t', w3)
             \<and> getAccessToken env fuel w3 = Some (Inr t2, w4) \<longrightarrow>
             (\<exists>w'. sendCustomerServiceMessage env message True fuel w
                     = Some (take 1 (tl (send_api w1)) = [Send_data (Some 0)], w')
                  \<and> posts w' = posts w @ [(t1, message), (t2, message)]
                  \<and> send_api w' = tl (tl (send_api w1))))
       \<and> (redis_get w2 TOKEN_LOCK_KEY = None
            \<and> token_api w1 = Token_data ec tok ex # later \<and> (ec = None \<or> ec = Some 0) \<and> 600 < ex
            \<and> JSON_parse_TokenCache env (JSON_stringify_TokenCache env td) = Some td
            \<and> JSON_stringify_TokenCache env td \<noteq> [] \<longrightarrow>
             (\<exists>w'. sendCustomerServiceMessage env message True fuel w
                     = Some (take 1 (tl (send_api w1)) = [Send_data (Some 0)], w')
                  \<and> posts w' = posts w @ [(t1, message), (tok, message)]
                  \<and> token_requests w' = Suc (token_requests w1)
                  \<and> send_api w' = tl (tl (send_api w1))))"
proof -
  obtain replies where replies: "send_api w1 = Send_data (Some 40001) # replies"
    using rejected by (cases "send_api w1") auto
  have w2: "w2 = console Warn_token_expired
                   (w1\<lparr>send_api := replies, posts := posts w1 @ [(t1, message)]\<rparr>)"
    by (simp add: w2_def replies)
  have posts_w1: "posts w1 = posts w"
    using getAccessToken_frame [OF first] by simp
  have w2_fields: "posts w2 = posts w @ [(t1, message)]" "send_api w2 = replies"
    "token_api w2 = token_api w1" "clock w2 = clock w1" "token_requests w2 = token_requests w1"
    by (simp_all add: w2 console_def posts_w1)
  note unfold = sendCustomerServiceMessage_rejected [OF first replies, of message, folded w2]
  have invalidated: "redis_get (snd (redis_del w2 TOKEN_KEY)) TOKEN_KEY = None"
    by (rule forceRefreshToken_invalidates)
  have force: "forceRefreshToken env fuel w2 = refreshAccessToken env fuel (snd (redis_del w2 TOKEN_KEY))"
    by (simp add: forceRefreshToken_def)
  have throws: "sendCustomerServiceMessage env message True fuel w
                  = Some (False, console (Error_send_threw e) w3)
                \<and> posts w3 = posts w @ [(t1, message)]"
    if "forceRefreshToken env fuel w2 = Some (Inl e, w3)" for e w3
    using that forceRefreshToken_frame [OF that] w2_fields by (simp add: unfold)
  have retry: "\<exists>w'. sendCustomerServiceMessage env message True fuel w
                     = Some (take 1 (tl (send_api w1)) = [Send_data (Some 0)], w')
                  \<and> posts w' = posts w @ [(t1, message), (t2, message)]
                  \<and> send_api w' = tl (tl (send_api w1))
                  \<and> token_requests w' = token_requests w4"
    if f: "forceRefreshToken env fuel w2 = Some (Inr t', w3)"
      and g: "getAccessToken env fuel w3 = Some (Inr t2, w4)" for t' w3 t2 w4
  proof -
    have "posts w4 = posts w @ [(t1, message)]" "send_api w4 = replies"
      using forceRefreshToken_frame [OF f] getAccessToken_frame [OF g] w2_fields by simp_all
    with sendCustomerServiceMessage_no_retry [OF g, of message] f replies
    show ?thesis by (auto simp: unfold)
  qed
  have normal: "\<exists>w'. sendCustomerServiceMessage env message True fuel w
                     = Some (take 1 (tl (send_api w1)) = [Send_data (Some 0)], w')
                  \<and> posts w' = posts w @ [(t1, message), (tok, message)]
                  \<and> token_requests w' = Suc (token_requests w1)
                  \<and> send_api w' = tl (tl (send_api w1))"
    if free: "redis_get w2 TOKEN_LOCK_KEY = None"
      and reply: "token_api w1 = Token_data ec tok ex # later"
      and ok: "ec = None \<or> ec = Some 0" and long: "600 < ex"
      and roundtrip: "JSON_parse_TokenCache env (JSON_stringify_TokenCache env td) = Some td"
      and nonempty: "JSON_stringify_TokenCache env td \<noteq> []"
  proof -
    have "token_api w2 = Token_data ec tok ex # later" using reply w2_fields by simp
    from forceRefreshToken_normal [OF free this ok long, of env fuel] roundtrip nonempty
    obtain w3 where w3: "forceRefreshToken env fuel w2 = Some (Inr tok, w3)"
      "getAccessToken env fuel w3 = Some (Inr tok, w3)"
      "token_requests w3 = Suc (token_requests w2)"
      by (auto simp: td_def w2_fields)
    from retry [OF w3(1,2)] w3(3) w2_fields show ?thesis by auto
  qed
  from invalidated force throws retry normal show ?thesis by blast
qed

lemma demo_rejected_first_token:
  "getAccessToken demo_env 0 demo_world_rejected = Some (Inr (ascii ''AT1''), demo_world_rejected)"
  by (simp add: getAccessToken.simps redis_get_def demo_world_rejected_def demo_world_def demo_env_def
      demo_parse_TokenCache_def demo_stringify_TokenCache_def ascii_def read_nat_def
      TOKEN_REFRESH_THRESHOLD_def)

lemma demo_TokenCache_roundtrip_2:
  "demo_parse_TokenCache (demo_stringify_TokenCache \<lparr>accessToken = ascii ''AT2'', expiresAt = 8200\<rparr>)
     = Some \<lparr>accessToken = ascii ''AT2'', expiresAt = 8200\<rparr>"
  by (simp add: demo_parse_TokenCache_def demo_stringify_TokenCache_def ascii_def read_nat_def)

theorem C6_auth_rejected_retry_once_witness:
  "getAccessToken demo_env 0 demo_world_rejected = Some (Inr (ascii ''AT1''), demo_world_rejected)
   \<and> take 1 (send_api demo_world_rejected) = [Send_data (Some 40001)]
   \<and> (\<exists>w'. sendCustomerServiceMessage demo_env (TextMessage (ascii ''U1'') (ascii ''42'')) True 0
               demo_world_rejected = Some (True, w')
           \<and> posts w' = [(ascii ''AT1'', TextMessage (ascii ''U1'') (ascii ''42'')),
                          (ascii ''AT2'', TextMessage (ascii ''U1'') (ascii ''42''))]
           \<and> token_requests w' = 1 \<and> send_api w' = [])"
proof -
  have rejected: "take 1 (send_api demo_world_rejected) = [Send_data (Some 40001)]"
    by (simp add: demo_world_rejected_def demo_world_def)
  have free: "redis_get (console Warn_token_expired
                (demo_world_rejected\<lparr>send_api := tl (send_api demo_world_rejected),
                   posts := posts demo_world_rejected
                            @ [(ascii ''AT1'', TextMessage (ascii ''U1'') (ascii ''42''))]\<rparr>))
              TOKEN_LOCK_KEY = None"
    by (simp add: redis_get_def console_def demo_world_rejected_def demo_world_def TOKEN_KEY_def
        TOKEN_LOCK_KEY_def ascii_def)
  have fields: "token_api demo_world_rejected = Token_data None (ascii ''AT2'') 7200 # []"
    "int (clock demo_world_rejected div 1000) + int 7200 = 8200"
    "posts demo_world_rejected = []" "token_requests demo_world_rejected = 0"
    "tl (send_api demo_world_rejected) = [Send_data (Some 0)]"
    by (simp_all add: demo_world_rejected_def demo_world_def)
  have codec: "JSON_parse_TokenCache demo_env = demo_parse_TokenCache"
    "JSON_stringify_TokenCache demo_env = demo_stringify_TokenCache"
    by (simp_all add: demo_env_def)
  note th = C6_auth_rejected_retry_once [OF demo_rejected_first_token rejected,
      where message = "TextMessage (ascii ''U1'') (ascii ''42'')" and ec = None
        and tok = "ascii ''AT2''" and ex = 7200 and later = "[]"]
  from th free fields codec demo_TokenCache_roundtrip_2 demo_stringify_TokenCache_nonempty
  have "\<exists>w'. sendCustomerServiceMessage demo_env (TextMessage (ascii ''U1'') (ascii ''42'')) True 0
               demo_world_rejected = Some (True, w')
           \<and> posts w' = [(ascii ''AT1'', TextMessage (ascii ''U1'') (ascii ''42'')),
                          (ascii ''AT2'', TextMessage (ascii ''U1'') (ascii ''42''))]
           \<and> token_requests w' = 1 \<and> send_api w' = []"
    by simp
  with demo_rejected_first_token rejected show ?thesis by simp
qed

subsection \<open>The verification handshake\<close>

lemma truthy_Some: "truthy x \<longleftrightarrow> (\<exists>s. x = Some s \<and> s \<noteq> [])"
  by (cases x) (simp_all add: truthy_def)

text \<open>
  C9, as the code has it: \<open>GET /wechat\<close> answers 400 when \<open>signature\<close>, \<open>timestamp\<close> or
  \<open>nonce\<close> is missing or empty; 200 with \<open>echostr\<close> as the body when the signature is valid
  and \<open>echostr\<close> is present and not empty; 403 in every other case, that of a valid
  signature without \<open>echostr\<close> included.
\<close>

theorem C9_get_wechat_responses:
  "(\<not> truthy (q_signature query) \<or> \<not> truthy (q_timestamp query) \<or> \<not> truthy (q_nonce query) \<longrightarrow>
      get_wechat env query = Response 400 (Text (ascii ''Missing parameters'')))
   \<and> (q_signature query = Some sig \<and> sig \<noteq> [] \<and> q_timestamp query = Some ts \<and> ts \<noteq> []
        \<and> q_nonce query = Some n \<and> n \<noteq> [] \<longrightarrow>
        (validateSignature (crypto_sha1_hex env) (config_wechat_token env) sig ts n
           \<and> q_echostr query = Some e \<and> e \<noteq> [] \<longrightarrow>
           get_wechat env query = Response 200 (Text e))
      \<and> (\<not> validateSignature (crypto_sha1_hex env) (config_wechat_token env) sig ts n
           \<or> \<not> truthy (q_echostr query) \<longrightarrow>
           get_wechat env query = Response 403 (Text (ascii ''Invalid signature''))))"
  by (auto simp: get_wechat_def truthy_def Let_def)

theorem C9_get_wechat_responses_witness:
  "get_wechat demo_env (demo_query\<lparr>q_nonce := None\<rparr>) = Response 400 (Text (ascii ''Missing parameters''))
   \<and> get_wechat demo_env (demo_query\<lparr>q_echostr := Some (ascii ''echo123'')\<rparr>)
       = Response 200 (Text (ascii ''echo123''))
   \<and> get_wechat demo_env (demo_query\<lparr>q_signature := Some (ascii ''bad''),
                                         q_echostr := Some (ascii ''echo123'')\<rparr>)
       = Response 403 (Text (ascii ''Invalid signature''))"
proof -
  have valid: "validateSignature (crypto_sha1_hex demo_env) (config_wechat_token demo_env)
                 (ascii ''sha1:1700000000n0ncesecret'') (ascii ''1700000000'') (ascii ''n0nce'')"
    by (simp add: validateSignature_def demo_env_def demo_sha1_hex_def ascii_def)
  have invalid: "\<not> validateSignature (crypto_sha1_hex demo_env) (config_wechat_token demo_env)
                 (ascii ''bad'') (ascii ''1700000000'') (ascii ''n0nce'')"
    by (simp add: validateSignature_def demo_env_def demo_sha1_hex_def ascii_def)
  have 1: "get_wechat demo_env (demo_query\<lparr>q_nonce := None\<rparr>)
             = Response 400 (Text (ascii ''Missing parameters''))"
    using C9_get_wechat_responses [where env = demo_env and query = "demo_query\<lparr>q_nonce := None\<rparr>"]
    by (simp add: truthy_def)
  have 2: "get_wechat demo_env (demo_query\<lparr>q_echostr := Some (ascii ''echo123'')\<rparr>)
             = Response 200 (Text (ascii ''echo123''))"
    using valid C9_get_wechat_responses [where env = demo_env
        and query = "demo_query\<lparr>q_echostr := Some (ascii ''echo123'')\<rparr>"
        and sig = "ascii ''sha1:1700000000n0ncesecret''" and ts = "ascii ''1700000000''"
        and n = "ascii ''n0nce''" and e = "ascii ''echo123''"]
    by (simp add: demo_query_def ascii_def)
  have 3: "get_wechat demo_env (demo_query\<lparr>q_signature := Some (ascii ''bad''),
                                         q_echostr := Some (ascii ''echo123'')\<rparr>)
             = Response 403 (Text (ascii ''Invalid signature''))"
    using invalid C9_get_wechat_responses [where env = demo_env
        and query = "demo_query\<lparr>q_signature := Some (ascii ''bad''),
                                         q_echostr := Some (ascii ''echo123'')\<rparr>"
        and sig = "ascii ''bad''" and ts = "ascii ''1700000000''"
        and n = "ascii ''n0nce''"]
    by (simp add: demo_query_def ascii_def)
  from 1 2 3 show ?thesis by simp
qed

theorem C9_valid_signature_without_echostr:
  "validateSignature (crypto_sha1_hex demo_env) (config_wechat_token demo_env)
     (the (q_signature demo_query)) (the (q_timestamp demo_query)) (the (q_nonce demo_query))
   \<and> get_wechat demo_env demo_query = Response 403 (Text (ascii ''Invalid signature''))"
  by (simp add: get_wechat_def validateSignature_def demo_query_def demo_env_def demo_sha1_hex_def
      truthy_def ascii_def)

subsection \<open>The task text of a message\<close>

lemma or_else_nonempty: "d \<noteq> [] \<Longrightarrow> or_else x d \<noteq> []"
  by (cases x) (simp_all add: or_else_def)

lemma or_else_Nil: "or_else x [] = (case x of None \<Rightarrow> [] | Some s \<Rightarrow> s)"
  by (cases x) (simp_all add: or_else_def)

lemma or_else_truthy: "or_else x d = (if truthy x then the x else d)"
  by (cases x) (simp_all add: or_else_def truthy_def)

lemma kinds_distinct:
  "ascii ''text'' \<noteq> ascii ''voice''" "ascii ''text'' \<noteq> ascii ''image''"
  "ascii ''text'' \<noteq> ascii ''location''" "ascii ''text'' \<noteq> ascii ''link''"
  "ascii ''voice'' \<noteq> ascii ''image''" "ascii ''voice'' \<noteq> ascii ''location''"
  "ascii ''voice'' \<noteq> ascii ''link''" "ascii ''image'' \<noteq> ascii ''location''"
  "ascii ''image'' \<noteq> ascii ''link''" "ascii ''location'' \<noteq> ascii ''link''"
  by (simp_all add: ascii_def)

text \<open>
  C4, as the code has it: the task text is, for \<open>text\<close>, the content as it is, and the
  empty string when the content is absent; for \<open>voice\<close>, the transcript when there is one
  and a fixed placeholder otherwise; for \<open>image\<close>, \<open>location\<close> and \<open>link\<close>, a tag followed
  by the media URL, by longitude, latitude and label, by title, description and URL; for
  every other kind, the kind between \<open>[\<close> and a fixed suffix. The mapping is total. The
  task is not empty for every kind but \<open>text\<close>, and for \<open>text\<close> exactly when the content
  is present and not empty. It is the \<open>task\<close> of the payload \<open>doForward\<close> posts.
\<close>

theorem C4_task_mapping:
  "(MsgType m = ascii ''text'' \<longrightarrow>
      task_of env m = (case Content m of None \<Rightarrow> [] | Some c \<Rightarrow> c)
      \<and> (task_of env m \<noteq> [] \<longleftrightarrow> truthy (Content m)))
   \<and> (MsgType m = ascii ''voice'' \<longrightarrow>
      task_of env m = (if truthy (Recognition m) then the (Recognition m) else VOICE_UNRECOGNIZED))
   \<and> (MsgType m = ascii ''image'' \<longrightarrow>
      task_of env m = IMAGE_TAG @ (case PicUrl m of None \<Rightarrow> [] | Some u \<Rightarrow> u))
   \<and> (MsgType m = ascii ''location'' \<longrightarrow>
      task_of env m = LOCATION_TAG_LONGITUDE @ number_in_template env (Location_Y m)
                        @ LOCATION_TAG_LATITUDE @ number_in_template env (Location_X m)
                        @ ascii '', '' @ (case Label m of None \<Rightarrow> [] | Some l \<Rightarrow> l))
   \<and> (MsgType m = ascii ''link'' \<longrightarrow>
      task_of env m = LINK_TAG @ (case Title m of None \<Rightarrow> [] | Some t \<Rightarrow> t) @ [10]
                        @ (case Description m of None \<Rightarrow> [] | Some d \<Rightarrow> d) @ [10]
                        @ (case Url m of None \<Rightarrow> [] | Some u \<Rightarrow> u))
   \<and> (MsgType m \<notin> {ascii ''text'', ascii ''voice'', ascii ''image'', ascii ''location'',
                      ascii ''link''} \<longrightarrow>
      task_of env m = ascii ''['' @ MsgType m @ MESSAGE_SUFFIX)
   \<and> (MsgType m \<noteq> ascii ''text'' \<longrightarrow> task_of env m \<noteq> [])
   \<and> task (payload (doForward env m binding)) = task_of env m"
proof -
  have k_text: "task_of env m = (case Content m of None \<Rightarrow> [] | Some c \<Rightarrow> c)
                \<and> (task_of env m \<noteq> [] \<longleftrightarrow> truthy (Content m))"
    if "MsgType m = ascii ''text''"
    using that by (cases "Content m") (simp_all add: task_of_def or_else_def truthy_def)
  have k_voice: "task_of env m
                 = (if truthy (Recognition m) then the (Recognition m) else VOICE_UNRECOGNIZED)"
    if "MsgType m = ascii ''voice''"
    using that kinds_distinct by (simp add: task_of_def or_else_truthy)
  have k_image: "task_of env m = IMAGE_TAG @ (case PicUrl m of None \<Rightarrow> [] | Some u \<Rightarrow> u)"
    if "MsgType m = ascii ''image''"
    using that kinds_distinct by (simp add: task_of_def or_else_Nil)
  have k_location: "task_of env m = LOCATION_TAG_LONGITUDE @ number_in_template env (Location_Y m)
                        @ LOCATION_TAG_LATITUDE @ number_in_template env (Location_X m)
                        @ ascii '', '' @ (case Label m of None \<Rightarrow> [] | Some l \<Rightarrow> l)"
    if "MsgType m = ascii ''location''"
    using that kinds_distinct by (simp add: task_of_def or_else_Nil)
  have k_link: "task_of env m = LINK_TAG @ (case Title m of None \<Rightarrow> [] | Some t \<Rightarrow> t) @ [10]
                        @ (case Description m of None \<Rightarrow> [] | Some d \<Rightarrow> d) @ [10]
                        @ (case Url m of None \<Rightarrow> [] | Some u \<Rightarrow> u)"
    if "MsgType m = ascii ''link''"
    using that kinds_distinct by (simp add: task_of_def or_else_Nil)
  have k_other: "task_of env m = ascii ''['' @ MsgType m @ MESSAGE_SUFFIX"
    if "MsgType m \<notin> {ascii ''text'', ascii ''voice'', ascii ''image'', ascii ''location'',
                      ascii ''link''}"
    using that by (simp add: task_of_def)
  have nonempty: "task_of env m \<noteq> []" if "MsgType m \<noteq> ascii ''text''"
    using that
    by (simp add: task_of_def or_else_nonempty VOICE_UNRECOGNIZED_def IMAGE_TAG_def
        LOCATION_TAG_LONGITUDE_def LINK_TAG_def ascii_def)
  have forwarded: "task (payload (doForward env m binding)) = task_of env m"
    by (simp add: doForward_def Let_def)
  from k_text k_voice k_image k_location k_link k_other nonempty forwarded show ?thesis by blast
qed

theorem C4_empty_task_for_text_without_content:
  "MsgType demo_message = ascii ''text'' \<and> task_of demo_env demo_message = []"
  by (simp add: task_of_def demo_message_def or_else_def)


theorem C4_task_mapping_witness:
  "task_of demo_env (text_message (ascii ''U1'') (ascii ''hello'')) = ascii ''hello''
   \<and> task_of demo_env (demo_message\<lparr>MsgType := ascii ''voice''\<rparr>) = VOICE_UNRECOGNIZED
   \<and> task_of demo_env (demo_message\<lparr>MsgType := ascii ''location'', Location_X := Some 23,
                                       Location_Y := Some 113, Label := Some (ascii ''Guangzhou'')\<rparr>)
       = LOCATION_TAG_LONGITUDE @ ascii ''113'' @ LOCATION_TAG_LATITUDE @ ascii ''23''
           @ ascii '', Guangzhou''
   \<and> task_of demo_env (demo_message\<lparr>MsgType := ascii ''video''\<rparr>)
       = ascii ''[video'' @ MESSAGE_SUFFIX
   \<and> task_of demo_env (demo_message\<lparr>MsgType := ascii ''event''\<rparr>) \<noteq> []"
proof -
  have 1: "task_of demo_env (text_message (ascii ''U1'') (ascii ''hello'')) = ascii ''hello''"
    using C4_task_mapping [where env = demo_env and m = "text_message (ascii ''U1'') (ascii ''hello'')"]
    by (simp add: text_message_def demo_message_def)
  have 2: "task_of demo_env (demo_message\<lparr>MsgType := ascii ''voice''\<rparr>) = VOICE_UNRECOGNIZED"
    using C4_task_mapping [where env = demo_env and m = "demo_message\<lparr>MsgType := ascii ''voice''\<rparr>"]
    by (simp add: demo_message_def truthy_def)
  have 3: "task_of demo_env (demo_message\<lparr>MsgType := ascii ''location'', Location_X := Some 23,
                                       Location_Y := Some 113, Label := Some (ascii ''Guangzhou'')\<rparr>)
       = LOCATION_TAG_LONGITUDE @ ascii ''113'' @ LOCATION_TAG_LATITUDE @ ascii ''23''
           @ ascii '', Guangzhou''"
    using C4_task_mapping [where env = demo_env
        and m = "demo_message\<lparr>MsgType := ascii ''location'', Location_X := Some 23,
                                       Location_Y := Some 113, Label := Some (ascii ''Guangzhou'')\<rparr>"]
    by (simp add: demo_message_def number_in_template_def demo_env_def demo_Number_toString_def
        ascii_def)
  have 4: "task_of demo_env (demo_message\<lparr>MsgType := ascii ''video''\<rparr>)
       = ascii ''[video'' @ MESSAGE_SUFFIX"
    using C4_task_mapping [where env = demo_env and m = "demo_message\<lparr>MsgType := ascii ''video''\<rparr>"]
    by (simp add: demo_message_def ascii_def)
  have 5: "task_of demo_env (demo_message\<lparr>MsgType := ascii ''event''\<rparr>) \<noteq> []"
    using C4_task_mapping [where env = demo_env and m = "demo_message\<lparr>MsgType := ascii ''event''\<rparr>"]
    by (simp add: demo_message_def ascii_def)
  from 1 2 3 4 5 show ?thesis by simp
qed

subsection \<open>Bind and unbind\<close>

lemma takeWhile_run:
  assumes "list_all P xs" and "ys = [] \<or> \<not> P (hd ys)"
  shows "takeWhile P (xs @ ys) = xs" and "dropWhile P (xs @ ys) = ys"
proof -
  from assms(1) have all: "\<And>x. x \<in> set xs \<Longrightarrow> P x" by (simp add: list_all_iff)
  from assms(2) have "takeWhile P ys = []" by (simp add: takeWhile_eq_Nil_iff)
  with all show "takeWhile P (xs @ ys) = xs" by simp
  from assms(2) have "dropWhile P ys = ys" by (simp add: dropWhile_eq_self_iff)
  with all show "dropWhile P (xs @ ys) = ys" by simp
qed

lemma nonblank_hd: "nonblank s \<Longrightarrow> \<not> isWhiteSpace (hd s) \<and> \<not> isWhiteSpace (last s) \<and> s \<noteq> []"
  by (cases s) (auto simp: nonblank_def list_all_iff)

lemma match_BIND_REGEX_groups:
  assumes word: "matches_word_ci ''bind'' word"
    and s1: "space1 \<noteq> []" "list_all isWhiteSpace space1"
    and g1: "nonblank group1"
    and s2: "space2 \<noteq> []" "list_all isWhiteSpace space2"
    and g2: "nonblank group2"
  shows "match_BIND_REGEX (word @ space1 @ group1 @ space2 @ group2) = Some (group1, group2)"
proof -
  have len: "length word = 4"
    using word by (auto simp: matches_word_ci_def ascii_def dest: list_all2_lengthD)
  have not1: "list_all (\<lambda>c. \<not> isWhiteSpace c) group1" and not2: "list_all (\<lambda>c. \<not> isWhiteSpace c) group2"
    using g1 g2 by (simp_all add: nonblank_def)
  have hd1: "\<not> isWhiteSpace (hd (group1 @ space2 @ group2))"
    using nonblank_hd [OF g1] by simp
  have hd2: "\<not> \<not> isWhiteSpace (hd (space2 @ group2))"
    using s2 by (cases space2) simp_all
  have hd3: "\<not> isWhiteSpace (hd group2)"
    using nonblank_hd [OF g2] by simp
  have a: "takeWhile isWhiteSpace (space1 @ group1 @ space2 @ group2) = space1"
    "dropWhile isWhiteSpace (space1 @ group1 @ space2 @ group2) = group1 @ space2 @ group2"
    using takeWhile_run [OF s1(2), of "group1 @ space2 @ group2"] hd1 by simp_all
  have b: "takeWhile (\<lambda>c. \<not> isWhiteSpace c) (group1 @ space2 @ group2) = group1"
    "dropWhile (\<lambda>c. \<not> isWhiteSpace c) (group1 @ space2 @ group2) = space2 @ group2"
    using takeWhile_run [OF not1, of "space2 @ group2"] hd2 by simp_all
  have c: "takeWhile isWhiteSpace (space2 @ group2) = space2"
    "dropWhile isWhiteSpace (space2 @ group2) = group2"
    using takeWhile_run [OF s2(2), of group2] hd3 by simp_all
  have d: "takeWhile (\<lambda>c. \<not> isWhiteSpace c) group2 = group2"
    "dropWhile (\<lambda>c. \<not> isWhiteSpace c) group2 = []"
    using takeWhile_run [OF not2, of "[]"] by simp_all
  have t: "take 4 (word @ space1 @ group1 @ space2 @ group2) = word"
    "drop 4 (word @ space1 @ group1 @ space2 @ group2) = space1 @ group1 @ space2 @ group2"
    using len by simp_all
  have ne: "group1 \<noteq> []" "group2 \<noteq> []"
    using g1 g2 by (simp_all add: nonblank_def)
  show ?thesis
    unfolding match_BIND_REGEX_def Let_def t a b c d
    using word s1(1) s2(1) ne by simp
qed

lemma match_BIND_REGEX_bind_command:
  assumes "nonblank url" and "nonblank tok"
  shows "match_BIND_REGEX (bind_command url tok) = Some (url, tok)"
proof -
  have "matches_word_ci ''bind'' (ascii ''bind'')"
    by (simp add: matches_word_ci_def ascii_def eq_ignore_case_def)
  moreover have "list_all isWhiteSpace [32]" by (simp add: isWhiteSpace_def)
  ultimately have "match_BIND_REGEX (ascii ''bind'' @ [32] @ url @ [32] @ tok) = Some (url, tok)"
    using assms by (intro match_BIND_REGEX_groups) simp_all
  then show ?thesis by (simp add: bind_command_def ascii_def)
qed

lemma matches_word_ci_hd:
  "matches_word_ci (p # ps) s \<Longrightarrow> s \<noteq> [] \<and> eq_ignore_case (of_char p) (hd s)"
  by (cases s) (simp_all add: matches_word_ci_def ascii_def)

lemma match_BIND_REGEX_starts_with_b:
  assumes "match_BIND_REGEX s = Some g"
  shows "s \<noteq> [] \<and> (hd s = 98 \<or> hd s = 66)"
proof -
  from assms have "matches_word_ci ''bind'' (take 4 s)"
    unfolding match_BIND_REGEX_def Let_def
    by (cases "matches_word_ci ''bind'' (take 4 s)") simp_all
  from matches_word_ci_hd [OF this] have "take 4 s \<noteq> []" "eq_ignore_case 98 (hd (take 4 s))"
    by simp_all
  then show ?thesis by (cases s) (auto simp: eq_ignore_case_def)
qed

lemma test_UNBIND_REGEX_starts_with_u:
  assumes "test_UNBIND_REGEX s"
  shows "s \<noteq> [] \<and> (hd s = 117 \<or> hd s = 85)"
proof -
  from assms have "matches_word_ci ''unbind'' s" by (simp add: test_UNBIND_REGEX_def)
  from matches_word_ci_hd [OF this] have "s \<noteq> []" "eq_ignore_case 117 (hd s)"
    by simp_all
  then show ?thesis by (auto simp: eq_ignore_case_def)
qed

lemma hd_trim:
  assumes "s \<noteq> []" and "\<not> isWhiteSpace (hd s)"
  shows "trim s \<noteq> [] \<and> hd (trim s) = hd s"
proof -
  from assms obtain c t where s: "s = c # t" and c: "\<not> isWhiteSpace c" by (cases s) auto
  have "dropWhile isWhiteSpace (rev t @ [c]) = dropWhile isWhiteSpace (rev t) @ [c]
        \<or> dropWhile isWhiteSpace (rev t @ [c]) = [c]"
    using c by (simp add: dropWhile_append)
  then have "rev (dropWhile isWhiteSpace (rev t @ [c])) = c # rev (dropWhile isWhiteSpace (rev t))
        \<or> rev (dropWhile isWhiteSpace (rev t @ [c])) = [c]"
    by auto
  then show ?thesis using c by (auto simp: trim_def s)
qed

lemma bind_is_not_unbind:
  assumes "match_BIND_REGEX s = Some g"
  shows "\<not> test_UNBIND_REGEX (trim s)"
proof
  assume u: "test_UNBIND_REGEX (trim s)"
  from match_BIND_REGEX_starts_with_b [OF assms] have b: "s \<noteq> []" "hd s = 98 \<or> hd s = 66" by auto
  then have "\<not> isWhiteSpace (hd s)" by (auto simp: isWhiteSpace_def)
  from hd_trim [OF b(1) this] test_UNBIND_REGEX_starts_with_u [OF u] b(2)
  show False by auto
qed

lemma unbind_is_not_bind:
  assumes "test_UNBIND_REGEX (trim s)"
  shows "match_BIND_REGEX s = None"
  using bind_is_not_unbind [of s] assms by (cases "match_BIND_REGEX s") auto

lemma getBinding_setBinding:
  assumes "JSON_parse_UserBinding env (JSON_stringify_UserBinding env
             \<lparr>endpoint = e, token = t, createdAt = clock w\<rparr>)
           = Some \<lparr>endpoint = e, token = t, createdAt = clock w\<rparr>"
    and "JSON_stringify_UserBinding env \<lparr>endpoint = e, token = t, createdAt = clock w\<rparr> \<noteq> []"
  shows "getBinding env (setBinding env w openId e t) openId
           = Some \<lparr>endpoint = e, token = t, createdAt = clock w\<rparr>"
  using assms by (simp add: getBinding_def setBinding_def redis_set_def redis_get_upd Let_def)

lemma snd_deleteBinding:
  "snd (deleteBinding w openId) = snd (redis_del w (BINDING_PREFIX @ openId))"
  by (simp add: deleteBinding_def case_prod_beta)

lemma getBinding_deleteBinding:
  "getBinding env (snd (deleteBinding w openId)) openId = None"
  by (simp add: getBinding_def snd_deleteBinding redis_get_del)

lemma getBinding_same_store:
  "redis w' = redis w \<Longrightarrow> clock w' = clock w \<Longrightarrow> getBinding env w' openId = getBinding env w openId"
  by (simp add: getBinding_def redis_get_same [of w' w])

lemma deleteBinding_clock: "clock (snd (deleteBinding w openId)) = clock w"
  by (simp add: snd_deleteBinding redis_del_def)

lemma text_message_fields:
  "MsgType (text_message u c) = ascii ''text''" "Content (text_message u c) = Some c"
  "FromUserName (text_message u c) = u" "ToUserName (text_message u c) = ascii ''gh_account''"
  "ascii ''text'' \<noteq> ascii ''event''"
  by (simp_all add: text_message_def demo_message_def ascii_def)

lemma handle_bind_unbound:
  assumes "getBinding env w (FromUserName m) = None"
    and "MsgType m = ascii ''text''" and "Content m = Some c" and "c \<noteq> []"
    and "match_BIND_REGEX c = Some (e, t)" and "URL_parses env e"
  shows "handle_message env m w =
           (Response 200 (Xml (TextReply (FromUserName m) (ToUserName m) (clock w div 1000)
                                 (BIND_OK_PREFIX @ e @ BIND_OK_SUFFIX))),
            setBinding env w (FromUserName m) e t)"
  using assms text_message_fields(5)
  by (simp add: handle_message_def Let_def truthy_def buildTextReply_def setBinding_def redis_set_def)

lemma handle_bound_forward:
  assumes "getBinding env w (FromUserName m) = Some b"
    and "MsgType m = ascii ''text''" and "Content m = Some c" and "c \<noteq> []"
    and "\<not> test_UNBIND_REGEX (trim c)"
  shows "handle_message env m w =
           (Response 200 (Xml (TextReply (FromUserName m) (ToUserName m) (clock w div 1000)
                                 PROCESSING_MSG)),
            forwardToClawdbot env m b w)"
  using assms text_message_fields(5)
  by (simp add: handle_message_def Let_def truthy_def buildTextReply_def forwardToClawdbot_def)

lemma handle_unbind_bound:
  assumes "getBinding env w (FromUserName m) = Some b"
    and "MsgType m = ascii ''text''" and "Content m = Some c" and "c \<noteq> []"
    and "test_UNBIND_REGEX (trim c)"
  shows "handle_message env m w =
           (Response 200 (Xml (TextReply (FromUserName m) (ToUserName m) (clock w div 1000)
                                 UNBIND_OK_MSG)),
            snd (deleteBinding w (FromUserName m)))"
  using assms text_message_fields(5)
  by (simp add: handle_message_def Let_def truthy_def buildTextReply_def deleteBinding_clock)

lemma handle_unbound_other:
  assumes "getBinding env w (FromUserName m) = None"
    and "MsgType m \<noteq> ascii ''event''"
    and "MsgType m = ascii ''text'' \<and> truthy (Content m) \<longrightarrow> match_BIND_REGEX (the (Content m)) = None"
  shows "handle_message env m w =
           (Response 200 (Xml (TextReply (FromUserName m) (ToUserName m) (clock w div 1000)
                                 PLEASE_BIND_MSG)), w)"
proof -
  have "(if MsgType m = ascii ''text'' \<and> truthy (Content m)
         then match_BIND_REGEX (the (Content m)) else None) = None"
    using assms(3) by simp
  then show ?thesis
    using assms(1,2) by (simp add: handle_message_def Let_def buildTextReply_def)
qed

lemma trim_unbind: "trim (ascii ''unbind'') = ascii ''unbind''"
  by (simp add: trim_def ascii_def isWhiteSpace_def)

lemma test_UNBIND_REGEX_unbind: "test_UNBIND_REGEX (trim (ascii ''unbind''))"
  by (simp add: trim_unbind) (simp add: test_UNBIND_REGEX_def matches_word_ci_def ascii_def eq_ignore_case_def)

lemma bind_command_nonempty: "bind_command url tok \<noteq> []"
  by (simp add: bind_command_def ascii_def)

lemma getBinding_forwardToClawdbot:
  "getBinding env (forwardToClawdbot env m b w) openId = getBinding env w openId"
  by (rule getBinding_same_store) (simp_all add: forwardToClawdbot_def)

text \<open>
  C1, as the code has it. A subject without a binding who sends \<open>bind <url> <tok>\<close>, with a
  URL that parses, is bound: a lookup returns exactly that endpoint and token, with the
  time of creation. A further \<open>bind <other_url> <other_tok>\<close> from the subject, now bound, is not a
  command: it is forwarded to the bound endpoint as a task and the binding stays as it
  was. \<open>unbind\<close> removes the binding and a lookup returns nothing; a \<open>bind <other_url> <other_tok>\<close>
  after that creates the binding with exactly the new endpoint and token.
\<close>

theorem C1_binding_roundtrip:
  fixes env :: env and w :: world and msg :: WeChatMessage and url tok other_url other_tok :: ustring
  defines "u \<equiv> FromUserName msg"
    and "say \<equiv> \<lambda>c. msg\<lparr>Content := Some c\<rparr>"
    and "reply \<equiv> \<lambda>c. Response 200 (Xml (TextReply (FromUserName msg) (ToUserName msg) (clock w div 1000) c))"
    and "b1 \<equiv> \<lparr>endpoint = url, token = tok, createdAt = clock w\<rparr>"
    and "b2 \<equiv> \<lparr>endpoint = other_url, token = other_tok, createdAt = clock w\<rparr>"
  defines "bound \<equiv> setBinding env w u url tok"
  defines "unbound \<equiv> snd (deleteBinding bound u)"
  assumes kind: "MsgType msg = ascii ''text''"
    and url: "nonblank url" "URL_parses env url" and tok: "nonblank tok"
    and other_url: "nonblank other_url" "URL_parses env other_url" and other_tok: "nonblank other_tok"
    and codec1: "JSON_parse_UserBinding env (JSON_stringify_UserBinding env b1) = Some b1"
      "JSON_stringify_UserBinding env b1 \<noteq> []"
    and codec2: "JSON_parse_UserBinding env (JSON_stringify_UserBinding env b2) = Some b2"
      "JSON_stringify_UserBinding env b2 \<noteq> []"
    and absent: "getBinding env w u = None"
  shows "handle_message env (say (bind_command url tok)) w
           = (reply (BIND_OK_PREFIX @ url @ BIND_OK_SUFFIX), bound)
       \<and> getBinding env bound u = Some b1
       \<and> handle_message env (say (bind_command other_url other_tok)) bound
           = (reply PROCESSING_MSG, forwardToClawdbot env (say (bind_command other_url other_tok)) b1 bound)
       \<and> getBinding env (forwardToClawdbot env (say (bind_command other_url other_tok)) b1 bound) u = Some b1
       \<and> handle_message env (say (ascii ''unbind'')) bound = (reply UNBIND_OK_MSG, unbound)
       \<and> getBinding env unbound u = None
       \<and> handle_message env (say (bind_command other_url other_tok)) unbound
           = (reply (BIND_OK_PREFIX @ other_url @ BIND_OK_SUFFIX), setBinding env unbound u other_url other_tok)
       \<and> getBinding env (setBinding env unbound u other_url other_tok) u = Some b2"
proof -
  have say: "MsgType (say c) = ascii ''text''" "Content (say c) = Some c"
    "FromUserName (say c) = FromUserName msg" "ToUserName (say c) = ToUserName msg" for c
    by (simp_all add: say_def kind)
  have clock: "clock bound = clock w" "clock unbound = clock w"
    by (simp_all add: bound_def unbound_def setBinding_def redis_set_def deleteBinding_clock)
  have m1: "match_BIND_REGEX (bind_command url tok) = Some (url, tok)"
    using url(1) tok by (rule match_BIND_REGEX_bind_command)
  have m2: "match_BIND_REGEX (bind_command other_url other_tok) = Some (other_url, other_tok)"
    using other_url(1) other_tok by (rule match_BIND_REGEX_bind_command)
  have 1: "handle_message env (say (bind_command url tok)) w
             = (reply (BIND_OK_PREFIX @ url @ BIND_OK_SUFFIX), bound)"
    using handle_bind_unbound [of env w "say (bind_command url tok)" "bind_command url tok" url tok]
      absent m1 url(2) bind_command_nonempty
    by (simp add: say u_def reply_def bound_def)
  have 2: "getBinding env bound u = Some b1"
    unfolding bound_def b1_def
    by (rule getBinding_setBinding) (use codec1 in \<open>simp_all add: b1_def\<close>)
  have 3: "handle_message env (say (bind_command other_url other_tok)) bound
           = (reply PROCESSING_MSG, forwardToClawdbot env (say (bind_command other_url other_tok)) b1 bound)"
    using handle_bound_forward [of env bound "say (bind_command other_url other_tok)" b1 "bind_command other_url other_tok"]
      2 bind_is_not_unbind [OF m2] bind_command_nonempty
    by (simp add: say u_def reply_def clock)
  have 4: "getBinding env (forwardToClawdbot env (say (bind_command other_url other_tok)) b1 bound) u = Some b1"
    using 2 by (simp add: getBinding_forwardToClawdbot)
  have 5: "handle_message env (say (ascii ''unbind'')) bound = (reply UNBIND_OK_MSG, unbound)"
    using handle_unbind_bound [of env bound "say (ascii ''unbind'')" b1 "ascii ''unbind''"]
      2 test_UNBIND_REGEX_unbind
    by (simp add: say u_def reply_def clock unbound_def ascii_def)
  have 6: "getBinding env unbound u = None"
    unfolding unbound_def by (rule getBinding_deleteBinding)
  have 7: "handle_message env (say (bind_command other_url other_tok)) unbound
           = (reply (BIND_OK_PREFIX @ other_url @ BIND_OK_SUFFIX), setBinding env unbound u other_url other_tok)"
    using handle_bind_unbound [of env unbound "say (bind_command other_url other_tok)" "bind_command other_url other_tok" other_url other_tok]
      6 m2 other_url(2) bind_command_nonempty
    by (simp add: say u_def reply_def clock)
  have 8: "getBinding env (setBinding env unbound u other_url other_tok) u = Some b2"
    using getBinding_setBinding [of env other_url other_tok unbound u] codec2
    by (simp add: b2_def clock)
  from 1 2 3 4 5 6 7 8 show ?thesis by simp
qed

lemma demo_nonblank: "nonblank demo_url" "nonblank demo_tok" "nonblank demo_url2" "nonblank demo_tok2"
  by (simp_all add: nonblank_def demo_url_def demo_tok_def demo_url2_def demo_tok2_def ascii_def
      isWhiteSpace_def)

lemma demo_URL_parses: "URL_parses demo_env demo_url" "URL_parses demo_env demo_url2"
  by (simp_all add: demo_env_def demo_URL_parses_def demo_url_def demo_url2_def ascii_def)

lemma demo_binding_roundtrip:
  "JSON_parse_UserBinding demo_env (JSON_stringify_UserBinding demo_env demo_binding) = Some demo_binding"
  "JSON_parse_UserBinding demo_env (JSON_stringify_UserBinding demo_env demo_binding2) = Some demo_binding2"
  by (simp_all add: demo_env_def demo_binding_def demo_binding2_def demo_parse_UserBinding_def
      demo_stringify_UserBinding_def demo_url_def demo_tok_def demo_url2_def demo_tok2_def
      ascii_def read_nat_def)

lemma demo_stringify_UserBinding_nonempty: "JSON_stringify_UserBinding demo_env b \<noteq> []"
  by (simp add: demo_env_def demo_stringify_UserBinding_def)

lemma demo_world_unbound: "getBinding demo_env demo_world openId = None"
  by (simp add: getBinding_def redis_get_def demo_world_def)

lemma demo_message_fields:
  "MsgType demo_message = ascii ''text''" "FromUserName demo_message = ascii ''U1''"
  "ToUserName demo_message = ascii ''gh_account''" "clock demo_world = 1000000"
  by (simp_all add: demo_message_def demo_world_def)

theorem C1_binding_roundtrip_witness:
  "getBinding demo_env demo_world (ascii ''U1'') = None
   \<and> snd (handle_message demo_env (demo_message\<lparr>Content := Some (bind_command demo_url demo_tok)\<rparr>)
           demo_world) = demo_world_bound
   \<and> getBinding demo_env demo_world_bound (ascii ''U1'') = Some demo_binding
   \<and> getBinding demo_env (snd (deleteBinding demo_world_bound (ascii ''U1''))) (ascii ''U1'') = None
   \<and> getBinding demo_env
        (setBinding demo_env (snd (deleteBinding demo_world_bound (ascii ''U1''))) (ascii ''U1'')
           demo_url2 demo_tok2) (ascii ''U1'') = Some demo_binding2"
proof -
  note th = C1_binding_roundtrip [where env = demo_env and w = demo_world and msg = demo_message
      and url = demo_url and tok = demo_tok and other_url = demo_url2 and other_tok = demo_tok2,
      unfolded demo_message_fields, folded demo_binding_def demo_binding2_def demo_world_bound_def,
      OF refl demo_nonblank(1) demo_URL_parses(1) demo_nonblank(2) demo_nonblank(3)
        demo_URL_parses(2) demo_nonblank(4) demo_binding_roundtrip(1)
        demo_stringify_UserBinding_nonempty demo_binding_roundtrip(2)
        demo_stringify_UserBinding_nonempty demo_world_unbound]
  from th demo_world_unbound [of "ascii ''U1''"] show ?thesis by simp
qed

theorem C1_second_bind_is_forwarded:
  "getBinding demo_env demo_world_bound (ascii ''U1'') = Some demo_binding
   \<and> getBinding demo_env
        (snd (handle_message demo_env (demo_message\<lparr>Content := Some (bind_command demo_url2 demo_tok2)\<rparr>)
                demo_world_bound))
        (ascii ''U1'') = Some demo_binding
   \<and> demo_binding \<noteq> demo_binding2"
proof -
  have bound: "getBinding demo_env demo_world_bound (ascii ''U1'') = Some demo_binding"
    unfolding demo_world_bound_def demo_binding_def demo_message_fields(4) [symmetric]
    by (rule getBinding_setBinding)
      (use demo_binding_roundtrip(1) demo_stringify_UserBinding_nonempty in
        \<open>simp_all add: demo_binding_def demo_message_fields\<close>)
  let ?m = "demo_message\<lparr>Content := Some (bind_command demo_url2 demo_tok2)\<rparr>"
  have "match_BIND_REGEX (bind_command demo_url2 demo_tok2) = Some (demo_url2, demo_tok2)"
    using demo_nonblank(3,4) by (rule match_BIND_REGEX_bind_command)
  then have "\<not> test_UNBIND_REGEX (trim (bind_command demo_url2 demo_tok2))"
    by (rule bind_is_not_unbind)
  with bound have "snd (handle_message demo_env ?m demo_world_bound)
                     = forwardToClawdbot demo_env ?m demo_binding demo_world_bound"
    using handle_bound_forward [of demo_env demo_world_bound ?m demo_binding
        "bind_command demo_url2 demo_tok2"] bind_command_nonempty
    by (simp add: demo_message_fields)
  with bound have "getBinding demo_env (snd (handle_message demo_env ?m demo_world_bound)) (ascii ''U1'')
                     = Some demo_binding"
    by (simp add: getBinding_forwardToClawdbot)
  moreover have "demo_binding \<noteq> demo_binding2"
    by (simp add: demo_binding_def demo_binding2_def demo_tok_def demo_tok2_def ascii_def)
  ultimately show ?thesis using bound by simp
qed

lemma trim_Nil: "trim [] = []"
  by (simp add: trim_def)

lemma test_UNBIND_REGEX_nonempty: "test_UNBIND_REGEX (trim c) \<Longrightarrow> c \<noteq> []"
  using test_UNBIND_REGEX_starts_with_u [of "trim c"] by (auto simp: trim_Nil)

text \<open>
  C2, as the code has it. A text message whose content, trimmed, is \<open>unbind\<close> in any
  case is answered with status 200 and leaves the sender without a binding. From a bound
  sender it deletes the binding and the reply is the unbind confirmation. From a sender
  without a binding nothing is deleted and the store is unchanged, but the reply is the
  instruction to bind first, not the confirmation.
\<close>

theorem C2_unbind:
  fixes env :: env and w :: world and msg :: WeChatMessage
  defines "u \<equiv> FromUserName msg"
    and "reply \<equiv> \<lambda>c. Response 200 (Xml (TextReply (FromUserName msg) (ToUserName msg) (clock w div 1000) c))"
  assumes kind: "MsgType msg = ascii ''text''"
    and content: "Content msg = Some c"
    and unbind: "test_UNBIND_REGEX (trim c)"
  shows "(\<forall>b. getBinding env w u = Some b \<longrightarrow>
            handle_message env msg w = (reply UNBIND_OK_MSG, snd (deleteBinding w u)))
       \<and> (getBinding env w u = None \<longrightarrow> handle_message env msg w = (reply PLEASE_BIND_MSG, w))
       \<and> status (fst (handle_message env msg w)) = 200
       \<and> getBinding env (snd (handle_message env msg w)) u = None"
proof -
  have ne: "c \<noteq> []" using unbind by (rule test_UNBIND_REGEX_nonempty)
  have bound: "handle_message env msg w = (reply UNBIND_OK_MSG, snd (deleteBinding w u))"
    if "getBinding env w u = Some b" for b
    using handle_unbind_bound [of env w msg b c] that kind content ne unbind
    by (simp add: u_def reply_def)
  have "match_BIND_REGEX c = None" using unbind by (rule unbind_is_not_bind)
  then have unbound: "handle_message env msg w = (reply PLEASE_BIND_MSG, w)"
    if "getBinding env w u = None"
    using handle_unbound_other [of env w msg] that kind content text_message_fields(5)
    by (simp add: u_def reply_def)
  have after: "status (fst (handle_message env msg w)) = 200
                 \<and> getBinding env (snd (handle_message env msg w)) u = None"
  proof (cases "getBinding env w u")
    case None
    with unbound show ?thesis by (simp add: reply_def)
  next
    case (Some b)
    with bound [OF Some] show ?thesis by (simp add: reply_def getBinding_deleteBinding)
  qed
  from bound unbound after show ?thesis by blast
qed

lemma demo_unbind: "test_UNBIND_REGEX (trim (ascii '' UnBind ''))"
  by (simp add: trim_def ascii_def isWhiteSpace_def test_UNBIND_REGEX_def matches_word_ci_def
      eq_ignore_case_def)

lemma demo_world_bound_binding:
  "getBinding demo_env demo_world_bound (ascii ''U1'') = Some demo_binding"
  unfolding demo_world_bound_def demo_binding_def demo_message_fields(4) [symmetric]
  by (rule getBinding_setBinding)
    (use demo_binding_roundtrip(1) demo_stringify_UserBinding_nonempty in
      \<open>simp_all add: demo_binding_def demo_message_fields\<close>)

theorem C2_unbind_witness:
  "test_UNBIND_REGEX (trim (ascii '' UnBind ''))
   \<and> getBinding demo_env demo_world_bound (ascii ''U1'') = Some demo_binding
   \<and> fst (handle_message demo_env (demo_message\<lparr>Content := Some (ascii '' UnBind '')\<rparr>) demo_world_bound)
       = Response 200 (Xml (TextReply (ascii ''U1'') (ascii ''gh_account'') 1000 UNBIND_OK_MSG))
   \<and> getBinding demo_env
        (snd (handle_message demo_env (demo_message\<lparr>Content := Some (ascii '' UnBind '')\<rparr>)
                demo_world_bound)) (ascii ''U1'') = None"
proof -
  have clock: "clock demo_world_bound div 1000 = 1000"
    by (simp add: demo_world_bound_def setBinding_def redis_set_def demo_world_def)
  note th = C2_unbind [where env = demo_env and w = demo_world_bound
      and msg = "demo_message\<lparr>Content := Some (ascii '' UnBind '')\<rparr>" and c = "ascii '' UnBind ''",
      OF _ _ demo_unbind]
  from th demo_world_bound_binding clock demo_unbind show ?thesis
    by (simp add: demo_message_fields getBinding_deleteBinding)
qed

theorem C2_unbind_without_binding_is_not_confirmed:
  "getBinding demo_env demo_world (ascii ''U1'') = None
   \<and> fst (handle_message demo_env (demo_message\<lparr>Content := Some (ascii ''unbind'')\<rparr>) demo_world)
       = Response 200 (Xml (TextReply (ascii ''U1'') (ascii ''gh_account'') 1000 PLEASE_BIND_MSG))
   \<and> PLEASE_BIND_MSG \<noteq> UNBIND_OK_MSG"
proof -
  have "match_BIND_REGEX (ascii ''unbind'') = None"
    using test_UNBIND_REGEX_unbind by (rule unbind_is_not_bind)
  then have "handle_message demo_env (demo_message\<lparr>Content := Some (ascii ''unbind'')\<rparr>) demo_world
               = (Response 200 (Xml (TextReply (ascii ''U1'') (ascii ''gh_account'') 1000 PLEASE_BIND_MSG)),
                  demo_world)"
    using handle_unbound_other [of demo_env demo_world "demo_message\<lparr>Content := Some (ascii ''unbind'')\<rparr>"]
      demo_world_unbound text_message_fields(5)
    by (simp add: demo_message_fields)
  moreover have "PLEASE_BIND_MSG \<noteq> UNBIND_OK_MSG"
    by (simp add: PLEASE_BIND_MSG_def UNBIND_OK_MSG_def)
  ultimately show ?thesis using demo_world_unbound by simp
qed

subsection \<open>A binding that does not parse\<close>

lemma with_key_fields:
  "clock (with_key k x w) = clock w" "token_api (with_key k x w) = token_api w"
  "send_api (with_key k x w) = send_api w" "token_requests (with_key k x w) = token_requests w"
  "posts (with_key k x w) = posts w" "forwards (with_key k x w) = forwards w"
  "log (with_key k x w) = log w"
  by (simp_all add: with_key_def)

lemma redis_get_with_key:
  "k' \<noteq> k \<Longrightarrow> redis_get (with_key k x w) k' = redis_get w k'"
  by (simp add: redis_get_def with_key_def split: option.splits prod.splits)

lemma with_key_console: "console l (with_key k x w) = with_key k x (console l w)"
  by (simp add: console_def with_key_def)

lemma with_key_sleep: "sleep n (with_key k x w) = with_key k x (sleep n w)"
  by (simp add: sleep_def with_key_def)

lemma with_key_redis_del:
  "k' \<noteq> k \<Longrightarrow> redis_del (with_key k x w) k' = apsnd (with_key k x) (redis_del w k')"
  by (simp add: redis_del_def redis_get_with_key) (simp add: with_key_def fun_upd_twist)

lemma with_key_redis_set_EX:
  "k' \<noteq> k \<Longrightarrow> redis_set_EX (with_key k x w) k' v s = map_sum id (with_key k x) (redis_set_EX w k' v s)"
  by (simp add: redis_set_EX_def) (simp add: with_key_def fun_upd_twist)

lemma with_key_redis_set_EX_NX:
  "k' \<noteq> k \<Longrightarrow> redis_set_EX_NX (with_key k x w) k' v s = apsnd (with_key k x) (redis_set_EX_NX w k' v s)"
  by (simp add: redis_set_EX_NX_def redis_get_with_key) (simp add: with_key_def fun_upd_twist)

lemma with_key_update_token:
  "(with_key k x w)\<lparr>token_api := ta, token_requests := n\<rparr>
     = with_key k x (w\<lparr>token_api := ta, token_requests := n\<rparr>)"
  by (simp add: with_key_def)

lemma with_key_update_send:
  "(with_key k x w)\<lparr>send_api := sa, posts := ps\<rparr> = with_key k x (w\<lparr>send_api := sa, posts := ps\<rparr>)"
  by (simp add: with_key_def)

lemma with_key_request_token:
  assumes "k \<noteq> TOKEN_KEY"
  shows "request_token env (with_key k x w) = apsnd (with_key k x) (request_token env w)"
proof (cases "token_api w")
  case Nil
  then show ?thesis
    by (simp add: request_token_def with_key_fields with_key_update_token)
next
  case (Cons reply rest)
  show ?thesis
  proof (cases reply)
    case Token_failed
    with Cons show ?thesis
      by (simp add: request_token_def with_key_fields with_key_update_token)
  next
    case (Token_data ec tok ex)
    let ?w1 = "w\<lparr>token_api := rest, token_requests := Suc (token_requests w)\<rparr>"
    let ?v = "JSON_stringify_TokenCache env
                \<lparr>accessToken = tok, expiresAt = int (clock w div 1000) + int ex\<rparr>"
    have "redis_set_EX (with_key k x ?w1) TOKEN_KEY ?v ex
            = map_sum id (with_key k x) (redis_set_EX ?w1 TOKEN_KEY ?v ex)"
      using assms by (simp add: with_key_redis_set_EX)
    with Cons Token_data show ?thesis
      by (cases "redis_set_EX ?w1 TOKEN_KEY ?v ex")
        (simp_all add: request_token_def Let_def with_key_fields with_key_update_token
          with_key_console)
  qed
qed

lemma with_key_refresh_holding_lock:
  assumes "k \<noteq> TOKEN_KEY" and "k \<noteq> TOKEN_LOCK_KEY"
  shows "refresh_holding_lock env (with_key k x w) = apsnd (with_key k x) (refresh_holding_lock env w)"
  using assms
  by (simp add: refresh_holding_lock_def with_key_request_token with_key_redis_del
      case_prod_beta)

lemma with_key_token_manager:
  assumes "k \<noteq> TOKEN_KEY" and "k \<noteq> TOKEN_LOCK_KEY"
  shows "getAccessToken env fuel (with_key k x w)
           = map_option (apsnd (with_key k x)) (getAccessToken env fuel w)
       \<and> refreshAccessToken env fuel (with_key k x w)
           = map_option (apsnd (with_key k x)) (refreshAccessToken env fuel w)"
proof (induction fuel arbitrary: w)
  case 0
  have r: "refreshAccessToken env 0 (with_key k x w)
           = map_option (apsnd (with_key k x)) (refreshAccessToken env 0 w)"
    using assms
    by (cases "redis_set_EX_NX w TOKEN_LOCK_KEY (ascii ''1'') 30")
      (auto simp: with_key_redis_set_EX_NX with_key_refresh_holding_lock refreshAccessToken.simps
        split: bool.splits)
  then show ?case
    using assms
    by (auto simp: redis_get_with_key with_key_fields Let_def simp: getAccessToken.simps
        split: option.splits)
next
  case (Suc fuel)
  have r: "refreshAccessToken env (Suc fuel) (with_key k x w)
           = map_option (apsnd (with_key k x)) (refreshAccessToken env (Suc fuel) w)"
    using assms Suc
    by (cases "redis_set_EX_NX w TOKEN_LOCK_KEY (ascii ''1'') 30")
      (auto simp: with_key_redis_set_EX_NX with_key_refresh_holding_lock with_key_sleep
        simp: refreshAccessToken.simps split: bool.splits)
  then show ?case
    using assms
    by (auto simp: redis_get_with_key with_key_fields Let_def simp: getAccessToken.simps
        split: option.splits)
qed

lemma with_key_getAccessToken:
  "k \<noteq> TOKEN_KEY \<Longrightarrow> k \<noteq> TOKEN_LOCK_KEY \<Longrightarrow>
   getAccessToken env fuel (with_key k x w) = map_option (apsnd (with_key k x)) (getAccessToken env fuel w)"
  using with_key_token_manager by blast

lemma with_key_forceRefreshToken:
  assumes "k \<noteq> TOKEN_KEY" and "k \<noteq> TOKEN_LOCK_KEY"
  shows "forceRefreshToken env fuel (with_key k x w)
           = map_option (apsnd (with_key k x)) (forceRefreshToken env fuel w)"
proof -
  have "snd (redis_del (with_key k x w) TOKEN_KEY) = with_key k x (snd (redis_del w TOKEN_KEY))"
    using assms(1) by (simp add: with_key_redis_del)
  then show ?thesis
    using with_key_token_manager [OF assms, of env fuel x "snd (redis_del w TOKEN_KEY)"]
    by (simp add: forceRefreshToken_def)
qed

lemma with_key_send_no_retry:
  assumes "k \<noteq> TOKEN_KEY" and "k \<noteq> TOKEN_LOCK_KEY"
  shows "sendCustomerServiceMessage env m False fuel (with_key k x w)
           = map_option (apsnd (with_key k x)) (sendCustomerServiceMessage env m False fuel w)"
proof (cases "getAccessToken env fuel w")
  case None
  then show ?thesis
    using assms
    by (simp add: sendCustomerServiceMessage.simps [of env m False] with_key_getAccessToken)
next
  case (Some rw)
  obtain r w1 where rw: "rw = (r, w1)" by (cases rw)
  show ?thesis
  proof (cases r)
    case (Inl e)
    with Some rw assms show ?thesis
      by (simp add: sendCustomerServiceMessage.simps [of env m False] with_key_getAccessToken
          with_key_console)
  next
    case (Inr t)
    with Some rw assms show ?thesis
      by (simp add: sendCustomerServiceMessage.simps [of env m False] with_key_getAccessToken
          with_key_console with_key_fields with_key_update_send Let_def
          split: list.splits send_reply.splits)
  qed
qed

lemma with_key_send:
  assumes "k \<noteq> TOKEN_KEY" and "k \<noteq> TOKEN_LOCK_KEY"
  shows "sendCustomerServiceMessage env m retry fuel (with_key k x w)
           = map_option (apsnd (with_key k x)) (sendCustomerServiceMessage env m retry fuel w)"
proof (cases retry)
  case False
  with assms show ?thesis by (simp add: with_key_send_no_retry)
next
  case True
  show ?thesis
  proof (cases "getAccessToken env fuel w")
    case None
    then show ?thesis
      using assms True
      by (simp add: sendCustomerServiceMessage.simps [of env m True] with_key_getAccessToken)
  next
    case (Some rw)
    obtain r w1 where rw: "rw = (r, w1)" by (cases rw)
    show ?thesis
    proof (cases r)
      case (Inl e)
      with Some rw assms True show ?thesis
        by (simp add: sendCustomerServiceMessage.simps [of env m True] with_key_getAccessToken
            with_key_console)
    next
      case (Inr t)
      let ?w2 = "w1\<lparr>send_api := tl (send_api w1), posts := posts w1 @ [(t, m)]\<rparr>"
      have force: "forceRefreshToken env fuel (console Warn_token_expired (with_key k x ?w2))
                     = map_option (apsnd (with_key k x))
                         (forceRefreshToken env fuel (console Warn_token_expired ?w2))"
        using assms by (simp add: with_key_console with_key_forceRefreshToken)
      show ?thesis
      proof (cases "forceRefreshToken env fuel (console Warn_token_expired ?w2)")
        case None
        with Some rw Inr assms True force show ?thesis
          by (simp add: sendCustomerServiceMessage.simps [of env m True] with_key_getAccessToken
              with_key_console with_key_fields with_key_update_send Let_def
              split: list.splits send_reply.splits)
      next
        case (Some rw3)
        obtain r3 w3 where rw3: "rw3 = (r3, w3)" by (cases rw3)
        from Some rw3 \<open>getAccessToken env fuel w = Some rw\<close> rw Inr assms True force show ?thesis
          by (cases r3)
            (simp_all add: sendCustomerServiceMessage.simps [of env m True] with_key_getAccessToken
              with_key_console with_key_fields with_key_update_send Let_def with_key_send_no_retry
              split: list.splits send_reply.splits)
      qed
    qed
  qed
qed

lemma with_key_sendChunks:
  assumes "k \<noteq> TOKEN_KEY" and "k \<noteq> TOKEN_LOCK_KEY"
  shows "sendChunks env openId cs i ok fuel (with_key k x w)
           = map_option (apsnd (with_key k x)) (sendChunks env openId cs i ok fuel w)"
proof (induction "length cs - i" arbitrary: i ok w)
  case 0
  then show ?case
    by (simp add: sendChunks.simps [of env openId cs i])
next
  case (Suc n)
  then have i: "i < length cs" and n: "n = length cs - Suc i" by simp_all
  let ?m = "TextMessage openId (chunkText cs i)"
  show ?case
  proof (cases "sendCustomerServiceMessage env ?m True fuel w")
    case None
    with i assms show ?thesis
      by (simp add: sendChunks.simps [of env openId cs i] with_key_send)
  next
    case (Some rw)
    obtain r w1 where rw: "rw = (r, w1)" by (cases rw)
    from Some rw i assms Suc.hyps(1) [OF n] show ?thesis
      by (simp add: sendChunks.simps [of env openId cs i] with_key_send with_key_sleep)
  qed
qed

lemma with_key_sendTextMessage:
  assumes "k \<noteq> TOKEN_KEY" and "k \<noteq> TOKEN_LOCK_KEY"
  shows "sendTextMessage env openId content fuel (with_key k x w)
           = map_option (apsnd (with_key k x)) (sendTextMessage env openId content fuel w)"
  using assms by (simp add: sendTextMessage_def with_key_send with_key_sendChunks)

lemma BINDING_key_not_token:
  "BINDING_PREFIX @ openId \<noteq> TOKEN_KEY" "BINDING_PREFIX @ openId \<noteq> TOKEN_LOCK_KEY"
  by (simp_all add: BINDING_PREFIX_def TOKEN_KEY_def TOKEN_LOCK_KEY_def ascii_def)

lemma getBinding_with_key_other:
  "openId \<noteq> u \<Longrightarrow> getBinding env (with_key (BINDING_PREFIX @ u) x w) openId = getBinding env w openId"
  by (simp add: getBinding_def redis_get_with_key)

lemma getBinding_unparsable:
  assumes "redis w (BINDING_PREFIX @ u) = Some (data, ex)"
    and "JSON_parse_UserBinding env data = None"
  shows "getBinding env w u = None"
  using assms by (cases ex) (simp_all add: getBinding_def redis_get_def)

lemma getBinding_removed: "getBinding env (with_key (BINDING_PREFIX @ u) None w) u = None"
  by (simp add: getBinding_def redis_get_def with_key_def)

lemma with_key_same: "redis w k = x \<Longrightarrow> with_key k x w = w"
  by (auto simp: with_key_def)

lemma with_key_twice: "with_key k x (with_key k y w) = with_key k x w"
  by (simp add: with_key_def)

lemma setBinding_with_key:
  "setBinding env (with_key (BINDING_PREFIX @ u) x w) u e t = setBinding env w u e t"
  by (simp add: setBinding_def redis_set_def with_key_def)

lemma getBinding_console: "getBinding env (console l w) openId = getBinding env w openId"
  by (rule getBinding_same_store) (simp_all add: console_def)

lemma handle_message_unbound_with_key:
  assumes "getBinding env w (FromUserName msg) = None"
    and "getBinding env (with_key (BINDING_PREFIX @ FromUserName msg) x w) (FromUserName msg) = None"
  shows "(handle_message env msg w = (fst (handle_message env msg w), w)
          \<and> handle_message env msg (with_key (BINDING_PREFIX @ FromUserName msg) x w)
              = (fst (handle_message env msg w), with_key (BINDING_PREFIX @ FromUserName msg) x w))
       \<or> (\<exists>e t. handle_message env msg w
                  = (fst (handle_message env msg w), setBinding env w (FromUserName msg) e t)
              \<and> handle_message env msg (with_key (BINDING_PREFIX @ FromUserName msg) x w)
                  = (fst (handle_message env msg w), setBinding env w (FromUserName msg) e t))"
proof -
  let ?k = "BINDING_PREFIX @ FromUserName msg"
  let ?cmd = "if MsgType msg = ascii ''text'' \<and> truthy (Content msg)
              then match_BIND_REGEX (the (Content msg)) else None"
  have clock: "clock (setBinding env w (FromUserName msg) e t) = clock w" for e t
    by (simp add: setBinding_def redis_set_def)
  show ?thesis
  proof (cases "MsgType msg = ascii ''event''")
    case True
    then show ?thesis
      by (simp add: handle_message_def Let_def buildTextReply_def with_key_fields)
  next
    case False
    show ?thesis
    proof (cases ?cmd)
      case None
      with False assms show ?thesis
        by (simp add: handle_message_def Let_def buildTextReply_def with_key_fields)
    next
      case (Some g)
      obtain e t where g: "g = (e, t)" by (cases g)
      show ?thesis
      proof (cases "URL_parses env e")
        case True
        with False assms Some g have
          "handle_message env msg w = (fst (handle_message env msg w), setBinding env w (FromUserName msg) e t)
           \<and> handle_message env msg (with_key ?k x w)
               = (fst (handle_message env msg w), setBinding env w (FromUserName msg) e t)"
          by (simp add: handle_message_def Let_def buildTextReply_def with_key_fields
              setBinding_with_key clock)
        then show ?thesis by blast
      next
        case no: False
        with False assms Some g show ?thesis
          by (simp add: handle_message_def Let_def buildTextReply_def with_key_fields)
      qed
    qed
  qed
qed

lemma post_callback_with_key:
  assumes "getBinding env w openid = None"
    and "getBinding env (with_key (BINDING_PREFIX @ openid) x w) openid = None"
  shows "post_callback env openid request_body fuel (with_key (BINDING_PREFIX @ openid) x w)
           = map_option (apsnd (with_key (BINDING_PREFIX @ openid) x))
               (post_callback env openid request_body fuel w)"
proof -
  let ?k = "BINDING_PREFIX @ openid"
  let ?w2 = "console (Warn_callback_unbound openid) (console (Log_callback_received openid) w)"
  have send: "sendTextMessage env openid (messageContent env request_body) fuel (with_key ?k x ?w2)
                = map_option (apsnd (with_key ?k x))
                    (sendTextMessage env openid (messageContent env request_body) fuel ?w2)"
    by (rule with_key_sendTextMessage) (rule BINDING_key_not_token)+
  have gb: "getBinding env (with_key ?k x (console l w)) openid = None" for l
    using assms(2) by (simp add: with_key_console [symmetric] getBinding_console)
  show ?thesis
  proof (cases "sendTextMessage env openid (messageContent env request_body) fuel ?w2")
    case None
    with assms send show ?thesis
      by (simp add: post_callback_def Let_def getBinding_console with_key_console gb)
  next
    case (Some sw)
    obtain sent w3 where sw: "sw = (sent, w3)" by (cases sw)
    from Some sw assms send show ?thesis
      by (cases sent)
        (simp_all add: post_callback_def Let_def getBinding_console with_key_console gb)
  qed
qed

text \<open>
  C10: when the value stored for a subject does not parse, \<open>getBinding\<close> returns nothing
  instead of throwing, as it does for a subject without a stored value. Handling a message
  of that subject gives the same response, starts the same forwards and leaves every
  lookup with the same result as in the world where the value is removed; and so does the
  callback: the same response, the same messages posted, the same log.
\<close>

theorem C10_unparsable_binding:
  fixes env :: env and w :: world and u data :: ustring
  defines "removed \<equiv> with_key (BINDING_PREFIX @ u) None w"
  assumes stored: "redis w (BINDING_PREFIX @ u) = Some (data, ex)"
    and unparsable: "JSON_parse_UserBinding env data = None"
  shows "getBinding env w u = None
       \<and> getBinding env removed u = None
       \<and> (\<forall>msg. FromUserName msg = u \<longrightarrow>
             fst (handle_message env msg w) = fst (handle_message env msg removed)
           \<and> forwards (snd (handle_message env msg w)) = forwards (snd (handle_message env msg removed))
           \<and> (\<forall>v. getBinding env (snd (handle_message env msg w)) v
                    = getBinding env (snd (handle_message env msg removed)) v))
       \<and> (\<forall>request_body fuel.
             map_option fst (post_callback env u request_body fuel w)
               = map_option fst (post_callback env u request_body fuel removed)
           \<and> map_option (\<lambda>r. posts (snd r)) (post_callback env u request_body fuel w)
               = map_option (\<lambda>r. posts (snd r)) (post_callback env u request_body fuel removed)
           \<and> map_option (\<lambda>r. log (snd r)) (post_callback env u request_body fuel w)
               = map_option (\<lambda>r. log (snd r)) (post_callback env u request_body fuel removed))"
proof -
  let ?k = "BINDING_PREFIX @ u"
  let ?x = "Some (data, ex)"
  have w: "w = with_key ?k ?x removed"
    using stored by (simp add: removed_def with_key_twice with_key_same)
  have none_w: "getBinding env w u = None"
    using stored unparsable by (rule getBinding_unparsable)
  have none_r: "getBinding env removed u = None"
    unfolding removed_def by (rule getBinding_removed)
  have none_k: "getBinding env (with_key ?k ?x removed) u = None"
    using none_w w by simp
  have handle: "fst (handle_message env msg w) = fst (handle_message env msg removed)
           \<and> forwards (snd (handle_message env msg w)) = forwards (snd (handle_message env msg removed))
           \<and> (\<forall>v. getBinding env (snd (handle_message env msg w)) v
                    = getBinding env (snd (handle_message env msg removed)) v)"
    if from_u: "FromUserName msg = u" for msg
  proof -
    from handle_message_unbound_with_key [of env removed msg ?x] none_r none_k from_u
    consider
      (same) "handle_message env msg removed = (fst (handle_message env msg removed), removed)"
        "handle_message env msg (with_key ?k ?x removed)
           = (fst (handle_message env msg removed), with_key ?k ?x removed)"
    | (bound) e t where
        "handle_message env msg removed
           = (fst (handle_message env msg removed), setBinding env removed u e t)"
        "handle_message env msg (with_key ?k ?x removed)
           = (fst (handle_message env msg removed), setBinding env removed u e t)"
      by auto
    then show ?thesis
    proof cases
      case same
      have "getBinding env (with_key ?k ?x removed) v = getBinding env removed v" for v
        using none_r none_k by (cases "v = u") (simp_all add: getBinding_with_key_other)
      with same show ?thesis
        by (metis w fst_conv snd_conv with_key_fields(6))
    next
      case bound
      then show ?thesis
        by (metis w fst_conv snd_conv)
    qed
  qed
  have callback: "map_option fst (post_callback env u request_body fuel w)
               = map_option fst (post_callback env u request_body fuel removed)
           \<and> map_option (\<lambda>r. posts (snd r)) (post_callback env u request_body fuel w)
               = map_option (\<lambda>r. posts (snd r)) (post_callback env u request_body fuel removed)
           \<and> map_option (\<lambda>r. log (snd r)) (post_callback env u request_body fuel w)
               = map_option (\<lambda>r. log (snd r)) (post_callback env u request_body fuel removed)"
    for request_body fuel
  proof -
    have "post_callback env u request_body fuel (with_key ?k ?x removed)
            = map_option (apsnd (with_key ?k ?x)) (post_callback env u request_body fuel removed)"
      using none_r none_k by (rule post_callback_with_key)
    then have "post_callback env u request_body fuel w
            = map_option (apsnd (with_key ?k ?x)) (post_callback env u request_body fuel removed)"
      using w by simp
    then show ?thesis
      by (cases "post_callback env u request_body fuel removed")
        (auto simp: with_key_fields)
  qed
  from none_w none_r handle callback show ?thesis by blast
qed

lemma demo_corrupt_stored:
  "redis demo_world_corrupt (BINDING_PREFIX @ ascii ''U1'') = Some (ascii ''{endpoint'', None)"
  by (simp add: demo_world_corrupt_def demo_world_def)

lemma demo_corrupt_unparsable: "JSON_parse_UserBinding demo_env (ascii ''{endpoint'') = None"
  by (simp add: demo_env_def demo_parse_UserBinding_def ascii_def)

theorem C10_unparsable_binding_witness:
  "redis demo_world_corrupt (BINDING_PREFIX @ ascii ''U1'') = Some (ascii ''{endpoint'', None)
   \<and> JSON_parse_UserBinding demo_env (ascii ''{endpoint'') = None
   \<and> getBinding demo_env demo_world_corrupt (ascii ''U1'') = None
   \<and> fst (handle_message demo_env (demo_message\<lparr>Content := Some (ascii ''hello'')\<rparr>)
           demo_world_corrupt)
       = fst (handle_message demo_env (demo_message\<lparr>Content := Some (ascii ''hello'')\<rparr>)
               (with_key (BINDING_PREFIX @ ascii ''U1'') None demo_world_corrupt))
   \<and> map_option fst (post_callback demo_env (ascii ''U1'')
          \<lparr>success = True, result = Some (ascii ''42''), error = None, metadata = None\<rparr> 0
          demo_world_corrupt)
       = map_option fst (post_callback demo_env (ascii ''U1'')
          \<lparr>success = True, result = Some (ascii ''42''), error = None, metadata = None\<rparr> 0
          (with_key (BINDING_PREFIX @ ascii ''U1'') None demo_world_corrupt))"
proof -
  note th = C10_unparsable_binding [OF demo_corrupt_stored demo_corrupt_unparsable]
  have from_u: "FromUserName (demo_message\<lparr>Content := Some (ascii ''hello'')\<rparr>) = ascii ''U1''"
    by (simp add: demo_message_fields)
  from th have 1: "getBinding demo_env demo_world_corrupt (ascii ''U1'') = None"
    by (rule conjunct1)
  from th from_u have 2: "fst (handle_message demo_env (demo_message\<lparr>Content := Some (ascii ''hello'')\<rparr>)
           demo_world_corrupt)
       = fst (handle_message demo_env (demo_message\<lparr>Content := Some (ascii ''hello'')\<rparr>)
               (with_key (BINDING_PREFIX @ ascii ''U1'') None demo_world_corrupt))"
    by blast
  from th have 3: "map_option fst (post_callback demo_env (ascii ''U1'')
          \<lparr>success = True, result = Some (ascii ''42''), error = None, metadata = None\<rparr> 0
          demo_world_corrupt)
       = map_option fst (post_callback demo_env (ascii ''U1'')
          \<lparr>success = True, result = Some (ascii ''42''), error = None, metadata = None\<rparr> 0
          (with_key (BINDING_PREFIX @ ascii ''U1'') None demo_world_corrupt))"
    by blast
  from demo_corrupt_stored demo_corrupt_unparsable 1 2 3 show ?thesis by simp
qed

subsection \<open>Delivering a callback\<close>

end
